theory Spec2Isabelle
  imports Complex_Main "HOL-Library.Word"
begin

unbundle bit_operations_syntax

section \<open>C strings and the Arduino String operations the sketch uses\<close>

text \<open>
  A C string is modelled as the list of its characters before the terminating NUL; a
  pointer into it is either an offset (where the source walks backwards) or the suffix
  that starts there (where it only walks forwards). Reading at the offset of the
  terminator yields the NUL character.
\<close>

definition isdigit :: "char \<Rightarrow> bool" where
  "isdigit c = (let n = (of_char c :: nat) in 48 \<le> n \<and> n \<le> 57)"

definition digit_val :: "char \<Rightarrow> nat" where
  "digit_val c = of_char c - 48"

definition isspace :: "char \<Rightarrow> bool" where
  "isspace c = (let n = (of_char c :: nat) in n = 32 \<or> (9 \<le> n \<and> n \<le> 13))"

definition char_at :: "string \<Rightarrow> nat \<Rightarrow> char" where
  "char_at s i = (if i < length s then s ! i else CHR 0x00)"

definition starts_with :: "string \<Rightarrow> string \<Rightarrow> bool" where
  "starts_with s p = (take (length p) s = p)"

fun strstr :: "string \<Rightarrow> string \<Rightarrow> nat option" where
  "strstr [] needle = (if needle = [] then Some 0 else None)"
| "strstr (c # cs) needle =
     (if starts_with (c # cs) needle then Some 0
      else map_option Suc (strstr cs needle))"

definition strstr_from :: "string \<Rightarrow> nat \<Rightarrow> string \<Rightarrow> nat option" where
  "strstr_from s k needle = map_option (\<lambda>i. k + i) (strstr (drop k s) needle)"

definition skip_spaces :: "string \<Rightarrow> string" where
  "skip_spaces s = dropWhile (\<lambda>c. c = CHR '' '') s"

definition digits3 :: "string \<Rightarrow> bool" where
  "digits3 p = (isdigit (char_at p 0) \<and> isdigit (char_at p 1) \<and> isdigit (char_at p 2))"

definition atoi3 :: "string \<Rightarrow> nat" where
  "atoi3 p = 100 * digit_val (char_at p 0) + 10 * digit_val (char_at p 1) + digit_val (char_at p 2)"

section \<open>Flight category thresholds and the classifier\<close>

definition LIFR_CEILING :: int where "LIFR_CEILING = 500"
definition LIFR_VISIBILITY :: rat where "LIFR_VISIBILITY = 1.0"
definition IFR_CEILING :: int where "IFR_CEILING = 1000"
definition IFR_VISIBILITY :: rat where "IFR_VISIBILITY = 3.0"
definition MVFR_CEILING :: int where "MVFR_CEILING = 3000"
definition MVFR_VISIBILITY :: rat where "MVFR_VISIBILITY = 5.0"

text \<open>
  \<open>MetarParser::deriveFlightCategory\<close>. The \<open>float\<close> argument is modelled by the
  rational number it denotes (every finite float is one, and the three visibility
  thresholds are exactly representable, so the comparisons agree); the \<open>int\<close>
  ceiling is an integer.
\<close>

definition deriveFlightCategory :: "rat \<Rightarrow> int \<Rightarrow> string" where
  "deriveFlightCategory visibility ceil =
     (if (ceil > 0 \<and> ceil < LIFR_CEILING) \<or>
         (visibility > 0 \<and> visibility < LIFR_VISIBILITY) then ''LIFR''
      else if (ceil > 0 \<and> ceil \<ge> LIFR_CEILING \<and> ceil < IFR_CEILING) \<or>
         (visibility > 0 \<and> visibility \<ge> LIFR_VISIBILITY \<and> visibility < IFR_VISIBILITY)
        then ''IFR''
      else if (ceil > 0 \<and> ceil \<ge> IFR_CEILING \<and> ceil \<le> MVFR_CEILING) \<or>
         (visibility > 0 \<and> visibility \<ge> IFR_VISIBILITY \<and> visibility < MVFR_VISIBILITY)
        then ''MVFR''
      else ''VFR'')"

subsection \<open>The specification's reference classifier\<close>

datatype category = VFR | MVFR | IFR | LIFR

fun severity :: "category \<Rightarrow> nat" where
  "severity VFR = 0"
| "severity MVFR = 1"
| "severity IFR = 2"
| "severity LIFR = 3"

fun category_name :: "category \<Rightarrow> string" where
  "category_name VFR = ''VFR''"
| "category_name MVFR = ''MVFR''"
| "category_name IFR = ''IFR''"
| "category_name LIFR = ''LIFR''"

text \<open>The value 0 stands for an absent ceiling or visibility.\<close>

definition present :: "'a::zero \<Rightarrow> 'a option" where
  "present x = (if x = 0 then None else Some x)"

definition in_range :: "'a::linorder option \<Rightarrow> ('a \<Rightarrow> bool) \<Rightarrow> bool" where
  "in_range x P = (case x of None \<Rightarrow> False | Some y \<Rightarrow> P y)"

text \<open>The piecewise table of the specification, most severe row first.\<close>

definition spec_category :: "int option \<Rightarrow> rat option \<Rightarrow> category" where
  "spec_category ceil visibility =
     (if in_range ceil (\<lambda>c. 0 < c \<and> c < 500) \<or> in_range visibility (\<lambda>v. 0 < v \<and> v < 1) then LIFR
      else if in_range ceil (\<lambda>c. 500 \<le> c \<and> c < 1000) \<or> in_range visibility (\<lambda>v. 1 \<le> v \<and> v < 3)
        then IFR
      else if in_range ceil (\<lambda>c. 1000 \<le> c \<and> c \<le> 3000) \<or> in_range visibility (\<lambda>v. 3 \<le> v \<and> v < 5)
        then MVFR
      else VFR)"

text \<open>Each quantity classified on its own, and the more severe of two outcomes.\<close>

definition ceiling_outcome :: "int option \<Rightarrow> category" where
  "ceiling_outcome ceil =
     (if in_range ceil (\<lambda>c. 0 < c \<and> c < 500) then LIFR
      else if in_range ceil (\<lambda>c. 500 \<le> c \<and> c < 1000) then IFR
      else if in_range ceil (\<lambda>c. 1000 \<le> c \<and> c \<le> 3000) then MVFR
      else VFR)"

definition visibility_outcome :: "rat option \<Rightarrow> category" where
  "visibility_outcome visibility =
     (if in_range visibility (\<lambda>v. 0 < v \<and> v < 1) then LIFR
      else if in_range visibility (\<lambda>v. 1 \<le> v \<and> v < 3) then IFR
      else if in_range visibility (\<lambda>v. 3 \<le> v \<and> v < 5) then MVFR
      else VFR)"

definition more_severe :: "category \<Rightarrow> category \<Rightarrow> category" where
  "more_severe a b = (if severity b \<le> severity a then a else b)"

section \<open>Data structures\<close>

text \<open>
  \<open>struct CloudLayer\<close>, \<open>struct METAR\<close> and \<open>struct AirportLED\<close>. The character buffers
  are strings, the heap copies (\<open>rawText\<close>, \<open>cloudLayers\<close>) are an optional string and
  a list (\<open>numCloudLayers\<close> is its length), and \<open>flags\<close> is the 16-bit presence mask
  of the source. The \<open>float\<close> fields hold the rational number that the source computes
  before it is rounded to single precision; the rounding itself is not modelled.
\<close>

record CloudLayer =
  coverage :: string
  height :: int
  layer_type :: string

record METAR =
  rawText :: "string option"
  cloudLayers :: "CloudLayer list"
  temp :: rat
  dewp :: rat
  wspd :: rat
  visib :: rat
  altim :: rat
  wdir :: nat
  flags :: "16 word"
  icaoId :: string
  receiptTime :: string
  obsTime :: string
  fltcat :: string

definition HAS_TEMP :: "16 word" where "HAS_TEMP = 0x01"
definition HAS_DEWP :: "16 word" where "HAS_DEWP = 0x02"
definition HAS_WSPD :: "16 word" where "HAS_WSPD = 0x04"
definition HAS_WDIR :: "16 word" where "HAS_WDIR = 0x08"
definition HAS_VISIB :: "16 word" where "HAS_VISIB = 0x10"
definition HAS_ALTIM :: "16 word" where "HAS_ALTIM = 0x20"
definition HAS_FLTCAT :: "16 word" where "HAS_FLTCAT = 0x40"
definition HAS_THUNDERSTORM :: "16 word" where "HAS_THUNDERSTORM = 0x80"

text \<open>The default constructor \<open>METAR()\<close>.\<close>

definition METAR_init :: METAR where
  "METAR_init = \<lparr> rawText = None, cloudLayers = [], temp = 0, dewp = 0, wspd = 0, visib = 0,
     altim = 0, wdir = 0, flags = 0, icaoId = [], receiptTime = [], obsTime = [], fltcat = [] \<rparr>"

definition hasTemp :: "METAR \<Rightarrow> bool" where "hasTemp m = (flags m AND HAS_TEMP \<noteq> 0)"
definition hasDewp :: "METAR \<Rightarrow> bool" where "hasDewp m = (flags m AND HAS_DEWP \<noteq> 0)"
definition hasWspd :: "METAR \<Rightarrow> bool" where "hasWspd m = (flags m AND HAS_WSPD \<noteq> 0)"
definition hasWdir :: "METAR \<Rightarrow> bool" where "hasWdir m = (flags m AND HAS_WDIR \<noteq> 0)"
definition hasVisib :: "METAR \<Rightarrow> bool" where "hasVisib m = (flags m AND HAS_VISIB \<noteq> 0)"
definition hasAltim :: "METAR \<Rightarrow> bool" where "hasAltim m = (flags m AND HAS_ALTIM \<noteq> 0)"
definition hasFltcat :: "METAR \<Rightarrow> bool" where "hasFltcat m = (flags m AND HAS_FLTCAT \<noteq> 0)"
definition hasThunderstorm :: "METAR \<Rightarrow> bool" where
  "hasThunderstorm m = (flags m AND HAS_THUNDERSTORM \<noteq> 0)"
definition hasObsTime :: "METAR \<Rightarrow> bool" where "hasObsTime m = (length (obsTime m) = 7)"
definition hasCloudLayers :: "METAR \<Rightarrow> bool" where "hasCloudLayers m = (cloudLayers m \<noteq> [])"

text \<open>
  The macro \<open>safeCopy(dest, src)\<close> for a destination buffer of \<open>n\<close> bytes: at most
  \<open>n - 1\<close> characters are kept.
\<close>

definition safeCopy :: "nat \<Rightarrow> string \<Rightarrow> string" where
  "safeCopy n src = take (n - 1) src"

definition setTemp :: "rat \<Rightarrow> METAR \<Rightarrow> METAR" where
  "setTemp v m = m\<lparr> temp := v, flags := flags m OR HAS_TEMP \<rparr>"
definition setDewp :: "rat \<Rightarrow> METAR \<Rightarrow> METAR" where
  "setDewp v m = m\<lparr> dewp := v, flags := flags m OR HAS_DEWP \<rparr>"
definition setWspd :: "rat \<Rightarrow> METAR \<Rightarrow> METAR" where
  "setWspd v m = m\<lparr> wspd := v, flags := flags m OR HAS_WSPD \<rparr>"
definition setWdir :: "nat \<Rightarrow> METAR \<Rightarrow> METAR" where
  "setWdir v m = m\<lparr> wdir := v, flags := flags m OR HAS_WDIR \<rparr>"
definition setVisib :: "rat \<Rightarrow> METAR \<Rightarrow> METAR" where
  "setVisib v m = m\<lparr> visib := v, flags := flags m OR HAS_VISIB \<rparr>"
definition setAltim :: "rat \<Rightarrow> METAR \<Rightarrow> METAR" where
  "setAltim v m = m\<lparr> altim := v, flags := flags m OR HAS_ALTIM \<rparr>"
definition setFltcat :: "string \<Rightarrow> METAR \<Rightarrow> METAR" where
  "setFltcat v m = m\<lparr> fltcat := safeCopy 5 v, flags := flags m OR HAS_FLTCAT \<rparr>"
definition setThunderstorm :: "bool \<Rightarrow> METAR \<Rightarrow> METAR" where
  "setThunderstorm v m =
     (if v then m\<lparr> flags := flags m OR HAS_THUNDERSTORM \<rparr>
      else m\<lparr> flags := flags m AND NOT HAS_THUNDERSTORM \<rparr>)"
definition setObsTime :: "string \<Rightarrow> METAR \<Rightarrow> METAR" where
  "setObsTime t m = m\<lparr> obsTime := safeCopy 8 t \<rparr>"
definition setRawText :: "string \<Rightarrow> METAR \<Rightarrow> METAR" where
  "setRawText t m = m\<lparr> rawText := Some t \<rparr>"

record AirportLED =
  icaoCode :: string
  metarData :: METAR
  hasValidData :: bool

text \<open>The constructor \<open>AirportLED(code)\<close>; a null code gives the empty slot.\<close>

definition AirportLED_of :: "string \<Rightarrow> AirportLED" where
  "AirportLED_of code = \<lparr> icaoCode = safeCopy 5 code, metarData = METAR_init, hasValidData = False \<rparr>"

definition isEmpty :: "AirportLED \<Rightarrow> bool" where
  "isEmpty a = (length (icaoCode a) = 0)"

datatype METAR_STATUS =
  SUCCESS | CONNECTION_FAILURE | CONNECTION_TIMEOUT | PARSING_FAILURE | RESPONSE_FAILURE

section \<open>The report parser\<close>

subsection \<open>Observation time\<close>

text \<open>
  \<open>MetarParser::parseObsTime\<close>, called with a buffer of 8 bytes: \<open>None\<close> is the
  result \<open>false\<close>, \<open>Some t\<close> is \<open>true\<close> with the seven characters copied out.
\<close>

definition two_digits :: "string \<Rightarrow> nat \<Rightarrow> int" where
  "two_digits s i = int (digit_val (char_at s i)) * 10 + int (digit_val (char_at s (i + 1)))"

definition parseObsTime :: "string \<Rightarrow> string option" where
  "parseObsTime rawMetarLine =
     (let timeStart = skip_spaces rawMetarLine;
          timeStart = (if starts_with timeStart ''METAR'' then skip_spaces (drop 5 timeStart)
                       else timeStart)
      in if length timeStart < 4 then None
         else
           let timeStart = skip_spaces (drop 4 timeStart)
           in if length timeStart < 7 then None
              else if \<not> isdigit (char_at timeStart 0) \<or> \<not> isdigit (char_at timeStart 1)
                   \<or> \<not> isdigit (char_at timeStart 2) \<or> \<not> isdigit (char_at timeStart 3)
                   \<or> \<not> isdigit (char_at timeStart 4) \<or> \<not> isdigit (char_at timeStart 5)
                   \<or> (char_at timeStart 6 \<noteq> CHR ''Z'' \<and> char_at timeStart 6 \<noteq> CHR ''z'')
                then None
              else
                let day = two_digits timeStart 0;
                    hour = two_digits timeStart 2;
                    minute = two_digits timeStart 4
                in if day < 1 \<or> day > 31 \<or> hour > 23 \<or> minute > 59 then None
                   else Some (take 7 timeStart))"

subsection \<open>Ceiling\<close>

text \<open>
  \<open>MetarParser::calculateCeiling\<close>: \<open>strstr\<close> gives the first occurrence of each
  code only.
\<close>

definition calculateCeiling :: "string \<Rightarrow> int" where
  "calculateCeiling metar =
     (let bknPtr = strstr metar ''BKN'';
          ovcPtr = strstr metar ''OVC'';
          ceil = (case bknPtr of
                    None \<Rightarrow> 0
                  | Some b \<Rightarrow>
                      let altPtr = drop (b + 3) metar
                      in if digits3 altPtr then int (atoi3 altPtr) * 100 else 0)
      in case ovcPtr of
           None \<Rightarrow> ceil
         | Some v \<Rightarrow>
             let altPtr = drop (v + 3) metar
             in if digits3 altPtr
                then let ovcCeiling = int (atoi3 altPtr) * 100
                     in if ceil = 0 \<or> ovcCeiling < ceil then ovcCeiling else ceil
                else ceil)"

subsection \<open>Cloud layers\<close>

text \<open>
  \<open>MetarParser::parseCloudConditions\<close>. The codes are tried in the order of the
  source's table; \<open>match_code\<close> is the inner \<open>for\<close> loop up to the first code that
  matches at the position.
\<close>

definition cloudCodes :: "string list" where
  "cloudCodes = [''SKC'', ''CLR'', ''FEW'', ''SCT'', ''BKN'', ''OVC'', ''VV'']"

definition match_code :: "string \<Rightarrow> string option" where
  "match_code pos = find (\<lambda>code. starts_with pos code) cloudCodes"

lemma match_code_length:
  "match_code pos = Some code \<Longrightarrow> 0 < length code \<and> length code \<le> length pos"
proof -
  assume "match_code pos = Some code"
  then have "code \<in> set cloudCodes" and "starts_with pos code"
    by (auto simp: match_code_def find_Some_iff)
  then show ?thesis
    by (auto simp: cloudCodes_def starts_with_def dest: arg_cong [where f = length])
qed

text \<open>
  The scanning loop. The state is the position (the rest of the text), the layers
  stored so far in \<open>tempLayers\<close> and the report being filled in. When the position
  has run over trailing spaces to the terminator and no code matches there, the source
  increments the pointer past the terminator and reads outside the text: that is the
  result \<open>None\<close>.
\<close>

function cloud_loop :: "string \<Rightarrow> CloudLayer list \<Rightarrow> METAR \<Rightarrow> (CloudLayer list \<times> METAR) option"
  where
  "cloud_loop pos layers metar =
     (if pos = [] \<or> 10 \<le> length layers then Some (layers, metar)
      else
        let p = skip_spaces pos
        in case match_code p of
             None \<Rightarrow> (case p of [] \<Rightarrow> None | c # p' \<Rightarrow> cloud_loop p' layers metar)
           | Some code \<Rightarrow>
               let q = drop (length code) p
               in if code = ''SKC'' \<or> code = ''CLR''
                  then cloud_loop q
                         (layers @ [\<lparr> coverage = take 3 code, height = 0, layer_type = [] \<rparr>]) metar
                  else if digits3 q
                  then
                    let h = int (atoi3 q);
                        r = drop 3 q
                    in if starts_with r ''CB''
                       then cloud_loop (drop 2 r)
                              (layers @ [\<lparr> coverage = take 3 code, height = h, layer_type = ''CB'' \<rparr>])
                              (setThunderstorm True metar)
                       else if starts_with r ''TCU''
                       then cloud_loop (drop 3 r)
                              (layers @ [\<lparr> coverage = take 3 code, height = h, layer_type = ''TCU'' \<rparr>])
                              metar
                       else cloud_loop r
                              (layers @ [\<lparr> coverage = take 3 code, height = h, layer_type = [] \<rparr>])
                              metar
                  else cloud_loop q layers metar)"
  by pat_completeness auto
termination
proof (relation "measure (\<lambda>(pos, layers, metar). length pos)")
  show "wf (measure (\<lambda>(pos, layers, metar). length pos))"
    by simp
next
  fix pos :: string and layers :: "CloudLayer list" and metar :: METAR and p c p'
  assume "p = skip_spaces pos" "p = c # p'"
  then have "c # p' = dropWhile (\<lambda>c. c = CHR '' '') pos"
    by (simp add: skip_spaces_def)
  then have "length (c # p') \<le> length pos"
    by (simp add: length_dropWhile_le)
  then have "length p' < length pos"
    by simp
  then show "((p', layers, metar), (pos, layers, metar)) \<in> measure (\<lambda>(pos, layers, metar). length pos)"
    by simp
next
  fix pos :: string and layers :: "CloudLayer list" and metar :: METAR and p code q
  assume "p = skip_spaces pos" "match_code p = Some code" "q = drop (length code) p"
  then have m: "0 < length code \<and> length code \<le> length p" and qp: "length q = length p - length code"
    and pp: "length p \<le> length pos"
    using match_code_length [of p code] by (simp_all add: skip_spaces_def length_dropWhile_le)
  from m have "length p - length code < length p"
    by linarith
  with qp pp have q: "length q < length pos"
    by linarith
  show "((q, layers @ [\<lparr> coverage = take 3 code, height = 0, layer_type = [] \<rparr>], metar),
         (pos, layers, metar)) \<in> measure (\<lambda>(pos, layers, metar). length pos)"
    using q by simp
  show "((q, layers, metar), (pos, layers, metar)) \<in> measure (\<lambda>(pos, layers, metar). length pos)"
    using q by simp
  fix h r
  assume "r = drop 3 q"
  then have r: "length r < length pos" "length (drop 2 r) < length pos" "length (drop 3 r) < length pos"
    using q by simp_all
  show "((drop 2 r, layers @ [\<lparr> coverage = take 3 code, height = h, layer_type = ''CB'' \<rparr>],
          setThunderstorm True metar), (pos, layers, metar))
        \<in> measure (\<lambda>(pos, layers, metar). length pos)"
    using r by simp
  show "((drop 3 r, layers @ [\<lparr> coverage = take 3 code, height = h, layer_type = ''TCU'' \<rparr>], metar),
         (pos, layers, metar)) \<in> measure (\<lambda>(pos, layers, metar). length pos)"
    using r by simp
  show "((r, layers @ [\<lparr> coverage = take 3 code, height = h, layer_type = [] \<rparr>], metar),
         (pos, layers, metar)) \<in> measure (\<lambda>(pos, layers, metar). length pos)"
    using r by simp
qed

declare cloud_loop.simps [simp del]

text \<open>A text that does not end in a space: the scan of such a text stays inside it.\<close>

definition no_trailing_space :: "string \<Rightarrow> bool" where
  "no_trailing_space s = (s = [] \<or> last s \<noteq> CHR '' '')"

text \<open>
  After the loop the collected layers replace the report's layers (the report is
  fresh, so there is nothing to free; allocation is taken to succeed).
\<close>

definition parseCloudConditions :: "METAR \<Rightarrow> string \<Rightarrow> METAR option" where
  "parseCloudConditions metar raw =
     (case cloud_loop raw [] metar of
        None \<Rightarrow> None
      | Some (layers, metar') \<Rightarrow> Some (metar'\<lparr> cloudLayers := layers \<rparr>))"

subsection \<open>Numbers and the Arduino String operations\<close>

text \<open>
  \<open>atof\<close> (and \<open>String::toFloat\<close>, which calls it) on the decimal grammar: leading
  white space, an optional sign, digits, an optional point and digits; no digits at all
  gives 0. The exponent, hexadecimal, infinity and not-a-number forms of the C library
  are left out: each needs a letter followed by further characters, and in every string
  the parser passes here at most the last character is outside the digits, the space,
  \<open>/\<close>, \<open>+\<close> and \<open>M\<close>.
\<close>

definition digits_val :: "string \<Rightarrow> nat" where
  "digits_val ds = foldl (\<lambda>a c. 10 * a + digit_val c) 0 ds"

definition atof :: "string \<Rightarrow> rat" where
  "atof s =
     (let t = dropWhile isspace s;
          neg = (t \<noteq> [] \<and> hd t = CHR ''-'');
          u = (if t \<noteq> [] \<and> (hd t = CHR ''-'' \<or> hd t = CHR ''+'') then tl t else t);
          ip = takeWhile isdigit u;
          rest = dropWhile isdigit u;
          fp = (if rest \<noteq> [] \<and> hd rest = CHR ''.'' then takeWhile isdigit (tl rest) else []);
          mag = of_nat (digits_val ip) + of_nat (digits_val fp) / 10 ^ length fp
      in if neg then - mag else mag)"

definition trim :: "string \<Rightarrow> string" where
  "trim s = rev (dropWhile isspace (rev (dropWhile isspace s)))"

definition endsWith :: "string \<Rightarrow> string \<Rightarrow> bool" where
  "endsWith s suffix = (length suffix \<le> length s \<and> drop (length s - length suffix) s = suffix)"

definition indexOf :: "string \<Rightarrow> char \<Rightarrow> int" where
  "indexOf s c = (if c \<in> set s then int (length (takeWhile (\<lambda>x. x \<noteq> c) s)) else - 1)"

definition substring :: "string \<Rightarrow> nat \<Rightarrow> nat \<Rightarrow> string" where
  "substring s left right =
     (let l = min left right; r = max left right
      in if length s \<le> l then [] else take (min r (length s) - l) (drop l s))"

definition substring_from :: "string \<Rightarrow> nat \<Rightarrow> string" where
  "substring_from s left = substring s left (length s)"

lemma length_trim_le: "length (trim s) \<le> length s"
proof -
  have "length (trim s) \<le> length (dropWhile isspace s)"
    using length_dropWhile_le [of isspace "rev (dropWhile isspace s)"] by (simp add: trim_def)
  also have "\<dots> \<le> length s"
    by (rule length_dropWhile_le)
  finally show ?thesis .
qed

lemma length_substring_from: "length (substring_from s k) = length s - k"
  by (simp add: substring_from_def substring_def Let_def min_def max_def)

lemma indexOf_pos_nonempty: "0 < indexOf s c \<Longrightarrow> s \<noteq> []"
  by (auto simp: indexOf_def)

subsection \<open>Visibility\<close>

text \<open>\<open>MetarParser::parseVisibility\<close>, on the Arduino \<open>String\<close> built from the argument.\<close>

function parseVisibility :: "string \<Rightarrow> rat" where
  "parseVisibility visStr =
     (let vis = trim visStr
      in if endsWith vis ''+'' then atof (substring vis 0 (length vis - 1))
         else
           let slashPos = indexOf vis (CHR ''/'')
           in if slashPos > 0 \<and> indexOf vis (CHR '' '') < 0
              then
                let num = atof (substring vis 0 (nat slashPos));
                    denom = atof (substring_from vis (nat slashPos + 1))
                in if denom > 0 then num / denom else 0
              else
                let spacePos = indexOf vis (CHR '' '')
                in if spacePos > 0
                   then
                     let whole = atof (substring vis 0 (nat spacePos));
                         fraction = parseVisibility (substring_from vis (nat spacePos + 1))
                     in whole + fraction
                   else atof vis)"
  by pat_completeness auto
termination
proof (relation "measure length")
  show "wf (measure (length :: string \<Rightarrow> nat))"
    by simp
next
  fix visStr vis :: string and spacePos :: int
  assume "vis = trim visStr" "spacePos = indexOf vis (CHR '' '')" "0 < spacePos"
  then have "vis \<noteq> []" and "length vis \<le> length visStr"
    using indexOf_pos_nonempty [of vis "CHR '' ''"] by (simp_all add: length_trim_le)
  then have "length vis - (nat spacePos + 1) < length visStr"
    by (cases vis) simp_all
  then show "(substring_from vis (nat spacePos + 1), visStr) \<in> measure length"
    by (simp add: length_substring_from)
qed

declare parseVisibility.simps [simp del]

text \<open>
  The visibility part of \<open>MetarParser::parse\<close>: the text copied into \<open>visStr[16]\<close>,
  when the source gets that far. \<open>walk_back\<close> is the loop that moves a pointer towards
  the start of the line while the character before it satisfies the test.
\<close>

fun walk_back :: "(char \<Rightarrow> bool) \<Rightarrow> string \<Rightarrow> nat \<Rightarrow> nat" where
  "walk_back P s 0 = 0"
| "walk_back P s (Suc n) = (if P (char_at s n) then walk_back P s n else Suc n)"

definition vis_char :: "char \<Rightarrow> bool" where
  "vis_char c = (isdigit c \<or> c = CHR ''/'' \<or> c = CHR '' '' \<or> c = CHR ''+'')"

definition visibility_token :: "string \<Rightarrow> string option" where
  "visibility_token rawMetarLine =
     (case strstr rawMetarLine ''SM'' of
        None \<Rightarrow> None
      | Some visPtr \<Rightarrow>
          (case strstr rawMetarLine ''KT'' of
             None \<Rightarrow> None
           | Some ktPtr \<Rightarrow>
               if visPtr > 0 \<and> visPtr > ktPtr
               then
                 let visStart = walk_back vis_char rawMetarLine (visPtr - 1);
                     visStart =
                       (if visStart < ktPtr + 2
                        then ktPtr + 2
                          + length (takeWhile (\<lambda>c. c = CHR '' '') (drop (ktPtr + 2) rawMetarLine))
                        else visStart)
                 in if visStart < visPtr
                    then
                      let len = visPtr - visStart;
                          len = (if 16 \<le> len then 15 else len)
                      in Some (take len (drop visStart rawMetarLine))
                    else None
               else None))"

definition parse_visibility :: "string \<Rightarrow> METAR \<Rightarrow> METAR" where
  "parse_visibility rawMetarLine metar =
     (case visibility_token rawMetarLine of
        None \<Rightarrow> metar
      | Some visStr \<Rightarrow>
          if char_at visStr 0 \<noteq> CHR ''R'' then setVisib (parseVisibility visStr) metar
          else metar)"

subsection \<open>Temperature and dewpoint\<close>

definition parseTemperatureValue :: "string \<Rightarrow> rat" where
  "parseTemperatureValue tempStr =
     (let negative = (char_at tempStr 0 = CHR ''M'');
          t = atof (if negative then drop 1 tempStr else tempStr)
      in if negative then - t else t)"

definition strchr_from :: "string \<Rightarrow> nat \<Rightarrow> char \<Rightarrow> nat option" where
  "strchr_from s k c =
     (if c \<in> set (drop k s) then Some (k + length (takeWhile (\<lambda>x. x \<noteq> c) (drop k s))) else None)"

definition temp_char :: "char \<Rightarrow> bool" where
  "temp_char c = (isdigit c \<or> c = CHR ''M'')"

definition parse_temperature :: "string \<Rightarrow> METAR \<Rightarrow> METAR" where
  "parse_temperature rawMetarLine metar =
     (let searchStart = (case strstr rawMetarLine ''SM'' of
                           None \<Rightarrow> 0
                         | Some visPtr \<Rightarrow> if visPtr > 0 then visPtr else 0)
      in case strchr_from rawMetarLine searchStart (CHR ''/'') of
           None \<Rightarrow> metar
         | Some tempPtr \<Rightarrow>
             if tempPtr > 10
             then
               let tempStart = walk_back temp_char rawMetarLine (tempPtr - 1)
               in if tempStart > 0 \<and> char_at rawMetarLine (tempStart - 1) = CHR '' ''
                  then
                    if tempStart < tempPtr
                    then
                      let tempLen = tempPtr - tempStart;
                          tempLen = (if 6 \<le> tempLen then 5 else tempLen);
                          tempStr = take tempLen (drop tempStart rawMetarLine);
                          metar = setTemp (parseTemperatureValue tempStr) metar;
                          dewStart = drop (tempPtr + 1) rawMetarLine;
                          dewLen = length (takeWhile temp_char dewStart)
                      in if dewLen > 0
                         then
                           let dewLen = (if 6 \<le> dewLen then 5 else dewLen);
                               dewStr = take dewLen dewStart
                           in setDewp (parseTemperatureValue dewStr) metar
                         else metar
                    else metar
                  else metar
             else metar)"

subsection \<open>Altimeter\<close>

lemma strstr_bound: "strstr s needle = Some k \<Longrightarrow> k + length needle \<le> length s"
proof (induction s arbitrary: k)
  case Nil
  then show ?case by (cases "needle = []") simp_all
next
  case (Cons c cs)
  show ?case
  proof (cases "starts_with (c # cs) needle")
    case True
    then have "length (take (length needle) (c # cs)) = length needle"
      by (simp add: starts_with_def)
    then have "length needle \<le> length (c # cs)"
      by (simp del: take_Suc_Cons length_Cons)
    with True Cons.prems show ?thesis by simp
  next
    case False
    with Cons.prems obtain j where "strstr cs needle = Some j" "k = Suc j"
      by auto
    with Cons.IH [of j] show ?thesis by simp
  qed
qed

text \<open>
  The \<open>while\<close> loop over the occurrences of \<open>" A"\<close>; the argument is the text from
  the point where the next search starts.
\<close>

function altim_scan :: "string \<Rightarrow> rat option" where
  "altim_scan s =
     (case strstr s '' A'' of
        None \<Rightarrow> None
      | Some k \<Rightarrow>
          let altPtr = drop (k + 1) s
          in if 5 \<le> length altPtr \<and> list_all isdigit (take 4 (drop 1 altPtr))
             then Some (atof (take 4 (drop 1 altPtr)) / 100)
             else altim_scan (drop 1 altPtr))"
  by pat_completeness auto
termination
proof (relation "measure length")
  show "wf (measure (length :: string \<Rightarrow> nat))"
    by simp
next
  fix s :: string and k altPtr
  assume "strstr s '' A'' = Some k" "altPtr = drop (k + 1) s"
  then have "length (drop 1 altPtr) < length s"
    using strstr_bound [of s "'' A''" k] by simp
  then show "(drop 1 altPtr, s) \<in> measure length"
    by simp
qed

declare altim_scan.simps [simp del]

definition parse_altimeter :: "string \<Rightarrow> METAR \<Rightarrow> METAR" where
  "parse_altimeter rawMetarLine metar =
     (case altim_scan rawMetarLine of None \<Rightarrow> metar | Some a \<Rightarrow> setAltim a metar)"

subsection \<open>Thunderstorm token, identifier and wind\<close>

definition parse_thunderstorm :: "string \<Rightarrow> METAR \<Rightarrow> METAR" where
  "parse_thunderstorm rawMetarLine metar =
     (case strstr rawMetarLine ''KT'' of
        None \<Rightarrow> metar
      | Some ktPtr \<Rightarrow>
          (case strstr_from rawMetarLine ktPtr ''TS'' of
             None \<Rightarrow> metar
           | Some tsPtr \<Rightarrow>
               if \<not> starts_with (drop tsPtr rawMetarLine) ''TSNO''
               then setThunderstorm True metar
               else metar))"

text \<open>The test of the thunderstorm block, on its own.\<close>

definition thunderstorm_token :: "string \<Rightarrow> bool" where
  "thunderstorm_token line =
     (case strstr line ''KT'' of
        None \<Rightarrow> False
      | Some ktPtr \<Rightarrow>
          (case strstr_from line ktPtr ''TS'' of
             None \<Rightarrow> False
           | Some tsPtr \<Rightarrow> \<not> starts_with (drop tsPtr line) ''TSNO''))"

definition parse_icao :: "string \<Rightarrow> METAR \<Rightarrow> METAR" where
  "parse_icao rawMetarLine metar =
     (let icaoStart = (if starts_with rawMetarLine ''METAR '' then drop 6 rawMetarLine
                       else if starts_with rawMetarLine ''SPECI '' then drop 6 rawMetarLine
                       else rawMetarLine);
          icaoStart = skip_spaces icaoStart
      in if 4 \<le> length icaoStart then metar\<lparr> icaoId := safeCopy 5 (take 4 icaoStart) \<rparr>
         else metar)"

definition parse_wind :: "string \<Rightarrow> METAR \<Rightarrow> METAR" where
  "parse_wind rawMetarLine metar =
     (case strstr rawMetarLine ''KT'' of
        None \<Rightarrow> metar
      | Some windPtr \<Rightarrow>
          if windPtr > 4
          then
            let windStart = drop (windPtr - 5) rawMetarLine;
                metar = (if digits3 windStart then setWdir (atoi3 windStart) metar else metar)
            in if isdigit (char_at windStart 3) \<and> isdigit (char_at windStart 4)
               then setWspd (atof (take 2 (drop 3 windStart))) metar
               else metar
          else metar)"

subsection \<open>The whole report\<close>

text \<open>
  \<open>MetarParser::parse\<close>, block by block in the order of the source, in three parts:
  the blocks before the cloud scan, the scan, and the blocks after it. \<open>None\<close> is the
  out-of-range read of the cloud scan; every other path returns a report.
\<close>

definition parse_before_clouds :: "string \<Rightarrow> METAR" where
  "parse_before_clouds rawMetarLine =
     (let metar = setRawText rawMetarLine METAR_init;
          metar = (case parseObsTime rawMetarLine of
                     None \<Rightarrow> metar
                   | Some obsTimeBuffer \<Rightarrow> setObsTime obsTimeBuffer metar);
          metar = parse_thunderstorm rawMetarLine metar;
          metar = parse_icao rawMetarLine metar
      in parse_wind rawMetarLine metar)"

definition parse_after_clouds :: "string \<Rightarrow> METAR \<Rightarrow> METAR" where
  "parse_after_clouds rawMetarLine metar =
     (let metar = parse_visibility rawMetarLine metar;
          metar = parse_temperature rawMetarLine metar;
          metar = parse_altimeter rawMetarLine metar;
          ceil = calculateCeiling rawMetarLine;
          cat = deriveFlightCategory (visib metar) ceil
      in setFltcat cat metar)"

definition parse :: "string \<Rightarrow> METAR option" where
  "parse rawMetarLine =
     (if length rawMetarLine < 10 then Some METAR_init
      else
        case parseCloudConditions (parse_before_clouds rawMetarLine) rawMetarLine of
          None \<Rightarrow> None
        | Some metar \<Rightarrow> Some (parse_after_clouds rawMetarLine metar))"

section \<open>The weather client and the airport registry\<close>

text \<open>
  The inner \<open>for\<close> loop of \<open>WeatherAPIClient::parseWeatherData\<close>: the first slot
  whose code equals the report's identifier receives the report; the flag says whether
  one was found (\<open>parsedCount\<close> is then incremented).
\<close>

fun assign_slot :: "AirportLED list \<Rightarrow> METAR \<Rightarrow> AirportLED list \<times> bool" where
  "assign_slot [] metar = ([], False)"
| "assign_slot (a # airports) metar =
     (if icaoCode a = icaoId metar
      then (a\<lparr> metarData := metar, hasValidData := True \<rparr> # airports, True)
      else (a # fst (assign_slot airports metar), snd (assign_slot airports metar)))"

text \<open>
  The \<open>while\<close> loop of \<open>parseWeatherData\<close>; \<open>rest\<close> is the text from
  \<open>startPos\<close> on. A last piece without a line feed after it is not looked at.
\<close>

lemma length_after_line_feed:
  "CHR 0x0A \<in> set rest \<Longrightarrow> length (dropWhile (\<lambda>c. c \<noteq> CHR 0x0A) rest) - Suc 0 < length rest"
proof -
  assume "CHR 0x0A \<in> set rest"
  then have "dropWhile (\<lambda>c. c \<noteq> CHR 0x0A) rest \<noteq> []"
    by (simp add: dropWhile_eq_Nil_conv)
  then have "length (dropWhile (\<lambda>c. c \<noteq> CHR 0x0A) rest) - Suc 0
      < length (dropWhile (\<lambda>c. c \<noteq> CHR 0x0A) rest)"
    by simp
  also have "\<dots> \<le> length rest"
    by (rule length_dropWhile_le)
  finally show ?thesis .
qed

function parse_lines :: "string \<Rightarrow> AirportLED list \<Rightarrow> int \<Rightarrow> (AirportLED list \<times> int) option"
  where
  "parse_lines rest airports parsedCount =
     (if CHR 0x0A \<notin> set rest then Some (airports, parsedCount)
      else
        let line = trim (takeWhile (\<lambda>c. c \<noteq> CHR 0x0A) rest);
            rest' = drop 1 (dropWhile (\<lambda>c. c \<noteq> CHR 0x0A) rest)
        in if 10 < length line
           then
             (case parse line of
                None \<Rightarrow> None
              | Some metar \<Rightarrow>
                  if 0 < length (icaoId metar)
                  then parse_lines rest' (fst (assign_slot airports metar))
                         (if snd (assign_slot airports metar) then parsedCount + 1
                          else parsedCount)
                  else parse_lines rest' airports parsedCount)
           else parse_lines rest' airports parsedCount)"
  by pat_completeness auto
termination
  by (relation "measure (\<lambda>(rest, airports, parsedCount). length rest)")
    (simp_all add: length_after_line_feed)

declare parse_lines.simps [simp del]

definition parseWeatherData :: "string \<Rightarrow> AirportLED list \<Rightarrow> (METAR_STATUS \<times> AirportLED list) option"
  where
  "parseWeatherData rawData airports =
     (case parse_lines rawData airports 0 of
        None \<Rightarrow> None
      | Some (airports', parsedCount) \<Rightarrow>
          Some (if 0 < parsedCount then SUCCESS else PARSING_FAILURE, airports'))"

text \<open>
  \<open>fetchRawData\<close> talks to the network; what the network did is an input of the
  model: no connection in three attempts, the request not written, no byte within the
  wait, or the bytes read.
\<close>

datatype net_outcome = NoConnection | RequestNotSent | NoResponse | Response string

definition indexOfStr :: "string \<Rightarrow> string \<Rightarrow> int" where
  "indexOfStr s sub = (case strstr s sub of None \<Rightarrow> - 1 | Some k \<Rightarrow> int k)"

definition fetchRawData :: "net_outcome \<Rightarrow> METAR_STATUS \<times> string" where
  "fetchRawData net =
     (case net of
        NoConnection \<Rightarrow> (CONNECTION_FAILURE, [])
      | RequestNotSent \<Rightarrow> (CONNECTION_FAILURE, [])
      | NoResponse \<Rightarrow> (CONNECTION_TIMEOUT, [])
      | Response fullResponse \<Rightarrow>
          if indexOfStr fullResponse ''200 OK'' < 0 then (RESPONSE_FAILURE, [])
          else
            let headerEnd = indexOfStr fullResponse [CHR 0x0D, CHR 0x0A, CHR 0x0D, CHR 0x0A];
                headerEnd = (if headerEnd < 0 then indexOfStr fullResponse [CHR 0x0A, CHR 0x0A]
                             else headerEnd)
            in if headerEnd < 0 then (RESPONSE_FAILURE, [])
               else
                 let headerEnd = nat headerEnd
                       + (if char_at fullResponse (nat headerEnd + 2) = CHR 0x0D then 4 else 2);
                     rawData = trim (substring_from fullResponse headerEnd)
                 in (if 0 < length rawData then SUCCESS else RESPONSE_FAILURE, rawData))"

definition MIN_HEAP_FOR_OPERATION :: nat where "MIN_HEAP_FOR_OPERATION = 8000"

definition fetchWeatherData ::
  "nat \<Rightarrow> net_outcome \<Rightarrow> AirportLED list \<Rightarrow> (METAR_STATUS \<times> AirportLED list) option" where
  "fetchWeatherData freeHeap net airports =
     (if freeHeap < MIN_HEAP_FOR_OPERATION then Some (CONNECTION_FAILURE, airports)
      else
        case fetchRawData net of
          (status, rawData) \<Rightarrow>
            if status \<noteq> SUCCESS then Some (status, airports)
            else parseWeatherData rawData airports)"

section \<open>The LED controller\<close>

text \<open>
  A colour is its 24-bit code \<open>0xRRGGBB\<close>. The settings read through \<open>g_state\<close> and
  the controller's members are records; \<open>millis()\<close> is a 32-bit unsigned value passed
  in, and so is the number drawn by \<open>random(0, 100)\<close>.
\<close>

type_synonym CRGB = nat

definition LED_VFR :: CRGB where "LED_VFR = 0x008000"
definition LED_MVFR :: CRGB where "LED_MVFR = 0x0000FF"
definition LED_IFR :: CRGB where "LED_IFR = 0xFF0000"
definition LED_LIFR :: CRGB where "LED_LIFR = 0xFF00FF"
definition LED_NO_DATA :: CRGB where "LED_NO_DATA = 0xFF4500"
definition LED_OFF :: CRGB where "LED_OFF = 0x000000"
definition LED_WIND_WARNING :: CRGB where "LED_WIND_WARNING = 0xFFC003"
definition LED_THUNDERSTORM :: CRGB where "LED_THUNDERSTORM = 0xFFFFFF"

definition WIND_BLINK_INTERVAL :: "32 word" where "WIND_BLINK_INTERVAL = 1000"

record SystemState =
  lastFetchStatus :: METAR_STATUS
  ledPowerState :: bool
  windCheckEnabled :: bool
  thunderstormsCheckEnabled :: bool
  windCheckThreshold :: "8 word"

definition ledsEnabled :: "SystemState \<Rightarrow> bool" where "ledsEnabled g = ledPowerState g"
definition windEnabled :: "SystemState \<Rightarrow> bool" where "windEnabled g = windCheckEnabled g"
definition thunderstormsEnabled :: "SystemState \<Rightarrow> bool" where
  "thunderstormsEnabled g = thunderstormsCheckEnabled g"
definition windThreshold :: "SystemState \<Rightarrow> rat" where
  "windThreshold g = of_nat (unat (windCheckThreshold g))"

record LEDController =
  leds :: "CRGB list"
  numLeds :: nat
  baseColors :: "CRGB list"
  lastFlashTime :: "32 word"
  lastWindBlinkTime :: "32 word"
  flashState :: bool
  windBlinkState :: bool

definition getFlightCategoryColor :: "string \<Rightarrow> CRGB" where
  "getFlightCategoryColor cat =
     (if cat = ''VFR'' then LED_VFR
      else if cat = ''MVFR'' then LED_MVFR
      else if cat = ''IFR'' then LED_IFR
      else if cat = ''LIFR'' then LED_LIFR
      else LED_NO_DATA)"

text \<open>
  The loops \<open>for (i = 0; i < numAirports && i < numLeds; i++)\<close> run over these
  indices; a loop body that may write \<open>leds[i]\<close> is folded over them.
\<close>

definition slot_indices :: "AirportLED list \<Rightarrow> LEDController \<Rightarrow> nat list" where
  "slot_indices airports ctl = [0..<min (length airports) (numLeds ctl)]"

definition set_where :: "(nat \<Rightarrow> bool) \<Rightarrow> (nat \<Rightarrow> CRGB) \<Rightarrow> nat list \<Rightarrow> CRGB list \<Rightarrow> CRGB list" where
  "set_where cond colour idx ls = fold (\<lambda>i l. if cond i then l[i := colour i] else l) idx ls"

text \<open>The colour that \<open>updateFromAirports\<close> stores for one slot, in both arrays.\<close>

definition resting_colour :: "SystemState \<Rightarrow> AirportLED \<Rightarrow> CRGB" where
  "resting_colour g a =
     (if \<not> ledsEnabled g then LED_OFF
      else if isEmpty a then LED_OFF
      else if \<not> hasValidData a \<or> \<not> hasFltcat (metarData a) then LED_NO_DATA
      else if windEnabled g \<and> hasWspd (metarData a) \<and> wspd (metarData a) > windThreshold g
      then LED_WIND_WARNING
      else getFlightCategoryColor (fltcat (metarData a)))"

definition updateFromAirports :: "SystemState \<Rightarrow> AirportLED list \<Rightarrow> LEDController \<Rightarrow> LEDController"
  where
  "updateFromAirports g airports ctl =
     ctl\<lparr> leds := set_where (\<lambda>i. True) (\<lambda>i. resting_colour g (airports ! i))
                 (slot_indices airports ctl) (leds ctl),
          baseColors := set_where (\<lambda>i. True) (\<lambda>i. resting_colour g (airports ! i))
                 (slot_indices airports ctl) (baseColors ctl) \<rparr>"

definition storm_slot :: "AirportLED \<Rightarrow> bool" where
  "storm_slot a = (hasValidData a \<and> hasThunderstorm (metarData a))"

definition updateThunderstorms ::
  "SystemState \<Rightarrow> 32 word \<Rightarrow> int \<Rightarrow> AirportLED list \<Rightarrow> LEDController \<Rightarrow> LEDController" where
  "updateThunderstorms g currentMillis rnd airports ctl =
     (if \<not> thunderstormsEnabled g then ctl
      else if \<not> ledsEnabled g then ctl
      else if lastFetchStatus g \<noteq> SUCCESS then ctl
      else
        let hasThunderstorms = list_ex (\<lambda>i. storm_slot (airports ! i)) (slot_indices airports ctl)
        in if \<not> hasThunderstorms then ctl
           else if flashState ctl
           then
             if 100 \<le> currentMillis - lastFlashTime ctl
             then ctl\<lparr> flashState := False,
                       leds := set_where (\<lambda>i. storm_slot (airports ! i)) (\<lambda>i. baseColors ctl ! i)
                                 (slot_indices airports ctl) (leds ctl),
                       lastFlashTime := currentMillis \<rparr>
             else ctl
           else
             if 3000 \<le> currentMillis - lastFlashTime ctl
             then
               if rnd < 20
               then ctl\<lparr> flashState := True,
                         leds := set_where (\<lambda>i. storm_slot (airports ! i)) (\<lambda>i. LED_THUNDERSTORM)
                                   (slot_indices airports ctl) (leds ctl),
                         lastFlashTime := currentMillis \<rparr>
               else ctl
             else ctl)"

definition wind_slot :: "SystemState \<Rightarrow> AirportLED \<Rightarrow> bool" where
  "wind_slot g a =
     (hasValidData a \<and> hasWspd (metarData a) \<and> wspd (metarData a) > windThreshold g
      \<and> \<not> hasThunderstorm (metarData a))"

definition updateWindBlink ::
  "SystemState \<Rightarrow> 32 word \<Rightarrow> AirportLED list \<Rightarrow> LEDController \<Rightarrow> LEDController" where
  "updateWindBlink g currentMillis airports ctl =
     (if \<not> windEnabled g then ctl
      else if \<not> ledsEnabled g then ctl
      else if lastFetchStatus g \<noteq> SUCCESS then ctl
      else if WIND_BLINK_INTERVAL \<le> currentMillis - lastWindBlinkTime ctl
      then
        let ctl = ctl\<lparr> lastWindBlinkTime := currentMillis,
                        windBlinkState := \<not> windBlinkState ctl \<rparr>
        in ctl\<lparr> leds := set_where (\<lambda>i. wind_slot g (airports ! i))
                           (\<lambda>i. if windBlinkState ctl then LED_WIND_WARNING else LED_OFF)
                           (slot_indices airports ctl) (leds ctl) \<rparr>
      else ctl)"

subsection \<open>A small configuration for the examples\<close>

text \<open>
  Two slots with wind above the threshold of 25 knots, the second with a thunderstorm; the
  resting colour of both is the wind-warning colour.
\<close>

definition example_settings :: SystemState where
  "example_settings = \<lparr> lastFetchStatus = SUCCESS, ledPowerState = True, windCheckEnabled = True,
     thunderstormsCheckEnabled = True, windCheckThreshold = 25 \<rparr>"

definition example_airports :: "AirportLED list" where
  "example_airports =
     [\<lparr> icaoCode = ''KSFO'', metarData = setWspd 30 METAR_init, hasValidData = True \<rparr>,
      \<lparr> icaoCode = ''KOAK'', metarData = setThunderstorm True (setWspd 30 METAR_init),
        hasValidData = True \<rparr>]"

definition example_controller :: LEDController where
  "example_controller = \<lparr> leds = [LED_WIND_WARNING, LED_WIND_WARNING], numLeds = 2,
     baseColors = [LED_WIND_WARNING, LED_WIND_WARNING], lastFlashTime = 0,
     lastWindBlinkTime = 0, flashState = False, windBlinkState = True \<rparr>"

text \<open>
  The registry of the specification's merge example, slots A, B, empty, C, and a batch
  with reports for A and C only, each ended by a line feed.
\<close>

definition example_registry :: "AirportLED list" where
  "example_registry =
     [AirportLED_of ''KSFO'', AirportLED_of ''KOAK'', AirportLED_of [], AirportLED_of ''KSJC'']"

definition example_batch :: string where
  "example_batch =
     ''KSFO 081856Z 28015KT 10SM CLR 15/12 A3012'' @ [CHR 0x0A]
     @ ''KSJC 081853Z 30008KT 10SM FEW020 16/11 A3011'' @ [CHR 0x0A]"

definition example_strip :: LEDController where
  "example_strip = \<lparr> leds = [LED_NO_DATA, LED_NO_DATA, LED_NO_DATA, LED_NO_DATA], numLeds = 4,
     baseColors = [LED_NO_DATA, LED_NO_DATA, LED_NO_DATA, LED_NO_DATA], lastFlashTime = 0,
     lastWindBlinkTime = 0, flashState = False, windBlinkState = False \<rparr>"

text \<open>A response whose body is a single report: after trimming no line feed is left.\<close>

definition example_response :: string where
  "example_response =
     ''HTTP/1.1 200 OK'' @ [CHR 0x0D, CHR 0x0A, CHR 0x0D, CHR 0x0A]
     @ ''KSFO 081856Z 28015KT 10SM CLR 15/12 A3012'' @ [CHR 0x0A]"

section \<open>Reference definitions in the words of the specification\<close>





text \<open>
  The merge of the specification: the index of the first slot with a given identifier,
  the replacement of that slot's observation, the lines of a batch that are looked at
  (ended by a line feed, trimmed, longer than 10 characters) and the observations parsed
  from them that have an identifier.
\<close>

fun first_slot :: "AirportLED list \<Rightarrow> string \<Rightarrow> nat option" where
  "first_slot [] c = None"
| "first_slot (a # airports) c =
     (if icaoCode a = c then Some 0 else map_option Suc (first_slot airports c))"

definition merge :: "METAR \<Rightarrow> AirportLED list \<Rightarrow> AirportLED list" where
  "merge m airports =
     (case first_slot airports (icaoId m) of
        None \<Rightarrow> airports
      | Some i \<Rightarrow> airports[i := (airports ! i)\<lparr> metarData := m, hasValidData := True \<rparr>])"

function batch_lines :: "string \<Rightarrow> string list" where
  "batch_lines rest =
     (if CHR 0x0A \<notin> set rest then []
      else
        let line = trim (takeWhile (\<lambda>c. c \<noteq> CHR 0x0A) rest);
            rest' = drop 1 (dropWhile (\<lambda>c. c \<noteq> CHR 0x0A) rest)
        in if 10 < length line then line # batch_lines rest' else batch_lines rest')"
  by pat_completeness auto
termination
  by (relation "measure length") (simp_all add: length_after_line_feed)

declare batch_lines.simps [simp del]

definition observations :: "string \<Rightarrow> METAR list" where
  "observations rawData =
     filter (\<lambda>m. icaoId m \<noteq> []) (List.map_filter parse (batch_lines rawData))"

text \<open>A cloud layer that carries the cumulonimbus modifier.\<close>

definition cb_layer :: "CloudLayer \<Rightarrow> bool" where
  "cb_layer l = (layer_type l = ''CB'')"

section \<open>Properties of the classifier\<close>

lemmas threshold_defs =
  LIFR_CEILING_def LIFR_VISIBILITY_def IFR_CEILING_def IFR_VISIBILITY_def
  MVFR_CEILING_def MVFR_VISIBILITY_def

lemma deriveFlightCategory_spec:
  "deriveFlightCategory v c = category_name (spec_category (present c) (present v))"
  by (simp add: deriveFlightCategory_def spec_category_def present_def in_range_def threshold_defs)

lemma spec_category_max:
  "spec_category c v = more_severe (ceiling_outcome c) (visibility_outcome v)"
  by (simp add: spec_category_def more_severe_def ceiling_outcome_def visibility_outcome_def)

lemma deriveFlightCategory_total:
  "deriveFlightCategory v c \<in> {''VFR'', ''MVFR'', ''IFR'', ''LIFR''}"
  by (simp add: deriveFlightCategory_def)

text \<open>
  C1. For every visibility and ceiling, \<open>deriveFlightCategory\<close> returns the name of
  the category that the specification's piecewise table gives when the value 0 is read
  as absent; that category is the more severe of the outcomes of the ceiling alone and of
  the visibility alone; the result is always one of the four category names; and at the
  boundaries: ceiling 500 with visibility 10 is IFR, ceiling 499 is LIFR whatever the
  visibility, visibility exactly 3 with no ceiling is MVFR, and both absent is VFR.
\<close>

theorem C1_deriveFlightCategory_reference:
  "deriveFlightCategory v c = category_name (spec_category (present c) (present v))
   \<and> spec_category (present c) (present v)
       = more_severe (ceiling_outcome (present c)) (visibility_outcome (present v))
   \<and> deriveFlightCategory v c \<in> {''VFR'', ''MVFR'', ''IFR'', ''LIFR''}
   \<and> deriveFlightCategory 10 500 = ''IFR''
   \<and> deriveFlightCategory v 499 = ''LIFR''
   \<and> deriveFlightCategory 3 0 = ''MVFR''
   \<and> deriveFlightCategory 0 0 = ''VFR''"
proof -
  have boundary: "deriveFlightCategory 10 500 = ''IFR''" "deriveFlightCategory v 499 = ''LIFR''"
    "deriveFlightCategory 3 0 = ''MVFR''" "deriveFlightCategory 0 0 = ''VFR''"
    by (simp_all add: deriveFlightCategory_def threshold_defs)
  show ?thesis
    using deriveFlightCategory_spec [of v c] spec_category_max [of "present c" "present v"]
      deriveFlightCategory_total [of v c] boundary
    by blast
qed

section \<open>Properties of the report parser\<close>

subsection \<open>Presence flags\<close>

lemma or_and_disjoint:
  fixes a b c :: "16 word"
  shows "b AND c = 0 \<Longrightarrow> ((a OR b) AND c = 0) = (a AND c = 0)"
  by (simp add: bit.conj_disj_distrib2)

lemma or_and_same:
  fixes a b :: "16 word"
  shows "b \<noteq> 0 \<Longrightarrow> (a OR b) AND b \<noteq> 0"
  by (simp add: bit.conj_disj_distrib2)

lemmas flag_defs = HAS_TEMP_def HAS_DEWP_def HAS_WSPD_def HAS_WDIR_def HAS_VISIB_def
  HAS_ALTIM_def HAS_FLTCAT_def HAS_THUNDERSTORM_def

lemmas setter_defs = setTemp_def setDewp_def setWspd_def setWdir_def setVisib_def setAltim_def
  setFltcat_def setThunderstorm_def setObsTime_def setRawText_def

lemma hasVisib_set:
  "hasVisib (setTemp v m) = hasVisib m" "hasVisib (setDewp v m) = hasVisib m"
  "hasVisib (setWspd v m) = hasVisib m" "hasVisib (setWdir n m) = hasVisib m"
  "hasVisib (setAltim v m) = hasVisib m" "hasVisib (setFltcat s m) = hasVisib m"
  "hasVisib (setThunderstorm True m) = hasVisib m" "hasVisib (setObsTime s m) = hasVisib m"
  "hasVisib (setRawText s m) = hasVisib m"
  "hasVisib (m\<lparr>icaoId := s\<rparr>) = hasVisib m" "hasVisib (m\<lparr>cloudLayers := ls\<rparr>) = hasVisib m" "hasVisib (setVisib v m)"
  by (simp_all add: hasVisib_def setter_defs flag_defs or_and_disjoint or_and_same)

lemma hasAltim_set:
  "hasAltim (setTemp v m) = hasAltim m" "hasAltim (setDewp v m) = hasAltim m"
  "hasAltim (setWspd v m) = hasAltim m" "hasAltim (setWdir n m) = hasAltim m"
  "hasAltim (setVisib v m) = hasAltim m" "hasAltim (setFltcat s m) = hasAltim m"
  "hasAltim (setThunderstorm True m) = hasAltim m" "hasAltim (setObsTime s m) = hasAltim m"
  "hasAltim (setRawText s m) = hasAltim m"
  "hasAltim (m\<lparr>icaoId := s\<rparr>) = hasAltim m" "hasAltim (m\<lparr>cloudLayers := ls\<rparr>) = hasAltim m" "hasAltim (setAltim v m)"
  by (simp_all add: hasAltim_def setter_defs flag_defs or_and_disjoint or_and_same)

lemma hasThunderstorm_set:
  "hasThunderstorm (setTemp v m) = hasThunderstorm m" "hasThunderstorm (setDewp v m) = hasThunderstorm m"
  "hasThunderstorm (setWspd v m) = hasThunderstorm m" "hasThunderstorm (setWdir n m) = hasThunderstorm m"
  "hasThunderstorm (setVisib v m) = hasThunderstorm m" "hasThunderstorm (setFltcat s m) = hasThunderstorm m"
  "hasThunderstorm (setAltim v m) = hasThunderstorm m" "hasThunderstorm (setObsTime s m) = hasThunderstorm m"
  "hasThunderstorm (setRawText s m) = hasThunderstorm m"
  "hasThunderstorm (m\<lparr>icaoId := s\<rparr>) = hasThunderstorm m" "hasThunderstorm (m\<lparr>cloudLayers := ls\<rparr>) = hasThunderstorm m" "hasThunderstorm (setThunderstorm True m)"
  by (simp_all add: hasThunderstorm_def setter_defs flag_defs or_and_disjoint or_and_same)

lemma visib_set:
  "visib (setTemp v m) = visib m" "visib (setDewp v m) = visib m"
  "visib (setWspd v m) = visib m" "visib (setWdir n m) = visib m"
  "visib (setAltim v m) = visib m" "visib (setFltcat s m) = visib m"
  "visib (setThunderstorm True m) = visib m" "visib (setObsTime s m) = visib m"
  "visib (setRawText s m) = visib m" "visib (setVisib v m) = v"
  by (simp_all add: setter_defs)

lemma altim_set:
  "altim (setTemp v m) = altim m" "altim (setDewp v m) = altim m"
  "altim (setWspd v m) = altim m" "altim (setWdir n m) = altim m"
  "altim (setVisib v m) = altim m" "altim (setFltcat s m) = altim m"
  "altim (setThunderstorm True m) = altim m" "altim (setObsTime s m) = altim m"
  "altim (setRawText s m) = altim m" "altim (setAltim v m) = v"
  by (simp_all add: setter_defs)

lemma icaoId_set:
  "icaoId (setTemp v m) = icaoId m" "icaoId (setDewp v m) = icaoId m"
  "icaoId (setWspd v m) = icaoId m" "icaoId (setWdir n m) = icaoId m"
  "icaoId (setVisib v m) = icaoId m" "icaoId (setFltcat s m) = icaoId m"
  "icaoId (setThunderstorm True m) = icaoId m" "icaoId (setObsTime s m) = icaoId m"
  "icaoId (setRawText s m) = icaoId m" "icaoId (setAltim v m) = icaoId m"
  by (simp_all add: setter_defs)

lemma obsTime_set:
  "obsTime (setTemp v m) = obsTime m" "obsTime (setDewp v m) = obsTime m"
  "obsTime (setWspd v m) = obsTime m" "obsTime (setWdir n m) = obsTime m"
  "obsTime (setVisib v m) = obsTime m" "obsTime (setFltcat s m) = obsTime m"
  "obsTime (setThunderstorm True m) = obsTime m" "obsTime (setObsTime s m) = safeCopy 8 s"
  "obsTime (setRawText s m) = obsTime m" "obsTime (setAltim v m) = obsTime m"
  by (simp_all add: setter_defs)

lemma cloudLayers_set:
  "cloudLayers (setTemp v m) = cloudLayers m" "cloudLayers (setDewp v m) = cloudLayers m"
  "cloudLayers (setWspd v m) = cloudLayers m" "cloudLayers (setWdir n m) = cloudLayers m"
  "cloudLayers (setVisib v m) = cloudLayers m" "cloudLayers (setFltcat s m) = cloudLayers m"
  "cloudLayers (setThunderstorm True m) = cloudLayers m" "cloudLayers (setObsTime s m) = cloudLayers m"
  "cloudLayers (setRawText s m) = cloudLayers m" "cloudLayers (setAltim v m) = cloudLayers m"
  by (simp_all add: setter_defs)

lemma init_flags:
  "\<not> hasVisib METAR_init" "\<not> hasAltim METAR_init" "\<not> hasThunderstorm METAR_init"
  by (simp_all add: hasVisib_def hasAltim_def hasThunderstorm_def METAR_init_def)


lemma cloud_loop_metar:
  "cloud_loop pos layers m = Some (ls, m') \<Longrightarrow> m' = m \<or> m' = setThunderstorm True m"
proof (induction pos layers m rule: cloud_loop.induct)
  case (1 pos layers metar)
  have idem: "setThunderstorm True (setThunderstorm True metar) = setThunderstorm True metar"
    by (simp add: setThunderstorm_def)
  show ?case
  proof (cases "pos = [] \<or> 10 \<le> length layers")
    case True
    with "1.prems" show ?thesis by (simp add: cloud_loop.simps [of pos layers metar])
  next
    case False
    define p where "p = skip_spaces pos"
    show ?thesis
    proof (cases "match_code p")
      case None
      with False "1.prems" obtain c p' where p: "p = c # p'" and r: "cloud_loop p' layers metar = Some (ls, m')"
        by (cases p) (auto simp: cloud_loop.simps [of pos layers metar] p_def [symmetric] Let_def)
      from "1.IH"(1) [OF False p_def None p r] show ?thesis .
    next
      case (Some code)
      define q where "q = drop (length code) p"
      note ih = "1.IH"(2-6) [OF False p_def Some q_def]
      from False "1.prems" Some have unfold:
        "(if code = ''SKC'' \<or> code = ''CLR''
          then cloud_loop q (layers @ [\<lparr>coverage = take 3 code, height = 0, layer_type = []\<rparr>]) metar
          else if digits3 q
          then let h = int (atoi3 q); r = drop 3 q
               in if starts_with r ''CB''
                  then cloud_loop (drop 2 r)
                         (layers @ [\<lparr>coverage = take 3 code, height = h, layer_type = ''CB''\<rparr>])
                         (setThunderstorm True metar)
                  else if starts_with r ''TCU''
                  then cloud_loop (drop 3 r)
                         (layers @ [\<lparr>coverage = take 3 code, height = h, layer_type = ''TCU''\<rparr>]) metar
                  else cloud_loop r
                         (layers @ [\<lparr>coverage = take 3 code, height = h, layer_type = []\<rparr>]) metar
          else cloud_loop q layers metar) = Some (ls, m')"
        by (simp add: cloud_loop.simps [of pos layers metar] p_def [symmetric] q_def [symmetric]
            Let_def)
      show ?thesis
      proof (cases "code = ''SKC'' \<or> code = ''CLR''")
        case True
        with unfold ih(1) show ?thesis by simp
      next
        case nclr: False
        show ?thesis
        proof (cases "digits3 q")
          case False
          with unfold nclr ih(5) show ?thesis by simp
        next
          case True
          show ?thesis
          proof (cases "starts_with (drop 3 q) ''CB''")
            case cb: True
            with unfold nclr True have "cloud_loop (drop 2 (drop 3 q))
                (layers @ [\<lparr>coverage = take 3 code, height = int (atoi3 q), layer_type = ''CB''\<rparr>])
                (setThunderstorm True metar) = Some (ls, m')"
              by (simp add: Let_def)
            from ih(2) [OF nclr True refl refl cb this] idem show ?thesis by auto
          next
            case ncb: False
            show ?thesis
            proof (cases "starts_with (drop 3 q) ''TCU''")
              case tcu: True
              with unfold nclr True ncb have "cloud_loop (drop 3 (drop 3 q))
                  (layers @ [\<lparr>coverage = take 3 code, height = int (atoi3 q), layer_type = ''TCU''\<rparr>])
                  metar = Some (ls, m')"
                by (simp add: Let_def)
              from ih(3) [OF nclr True refl refl ncb tcu this] show ?thesis .
            next
              case ntcu: False
              with unfold nclr True ncb have "cloud_loop (drop 3 q)
                  (layers @ [\<lparr>coverage = take 3 code, height = int (atoi3 q), layer_type = []\<rparr>])
                  metar = Some (ls, m')"
                by (simp add: Let_def)
              from ih(4) [OF nclr True refl refl ncb ntcu this] show ?thesis .
            qed
          qed
        qed
      qed
    qed
  qed
qed


subsection \<open>What each block leaves alone\<close>

lemmas field_set = hasVisib_set hasAltim_set hasThunderstorm_set visib_set altim_set icaoId_set
  obsTime_set cloudLayers_set

lemma parse_thunderstorm_frame:
  "icaoId (parse_thunderstorm l m) = icaoId m" "obsTime (parse_thunderstorm l m) = obsTime m"
  "hasVisib (parse_thunderstorm l m) = hasVisib m" "visib (parse_thunderstorm l m) = visib m"
  "hasAltim (parse_thunderstorm l m) = hasAltim m" "altim (parse_thunderstorm l m) = altim m"
  "cloudLayers (parse_thunderstorm l m) = cloudLayers m"
  by (simp_all add: parse_thunderstorm_def field_set split: option.splits)

lemma parse_icao_frame:
  "obsTime (parse_icao l m) = obsTime m"
  "hasVisib (parse_icao l m) = hasVisib m" "visib (parse_icao l m) = visib m"
  "hasAltim (parse_icao l m) = hasAltim m" "altim (parse_icao l m) = altim m"
  "hasThunderstorm (parse_icao l m) = hasThunderstorm m"
  "cloudLayers (parse_icao l m) = cloudLayers m"
  by (simp_all add: parse_icao_def Let_def field_set)

lemma parse_wind_frame:
  "icaoId (parse_wind l m) = icaoId m" "obsTime (parse_wind l m) = obsTime m"
  "hasVisib (parse_wind l m) = hasVisib m" "visib (parse_wind l m) = visib m"
  "hasAltim (parse_wind l m) = hasAltim m" "altim (parse_wind l m) = altim m"
  "hasThunderstorm (parse_wind l m) = hasThunderstorm m"
  "cloudLayers (parse_wind l m) = cloudLayers m"
  by (simp_all add: parse_wind_def Let_def field_set split: option.splits)

lemma parse_visibility_frame:
  "icaoId (parse_visibility l m) = icaoId m" "obsTime (parse_visibility l m) = obsTime m"
  "hasAltim (parse_visibility l m) = hasAltim m" "altim (parse_visibility l m) = altim m"
  "hasThunderstorm (parse_visibility l m) = hasThunderstorm m"
  "cloudLayers (parse_visibility l m) = cloudLayers m"
  by (simp_all add: parse_visibility_def field_set split: option.splits)

lemma parse_temperature_frame:
  "icaoId (parse_temperature l m) = icaoId m" "obsTime (parse_temperature l m) = obsTime m"
  "hasVisib (parse_temperature l m) = hasVisib m" "visib (parse_temperature l m) = visib m"
  "hasAltim (parse_temperature l m) = hasAltim m" "altim (parse_temperature l m) = altim m"
  "hasThunderstorm (parse_temperature l m) = hasThunderstorm m"
  "cloudLayers (parse_temperature l m) = cloudLayers m"
  by (simp_all add: parse_temperature_def Let_def field_set split: option.splits)

lemma parse_altimeter_frame:
  "icaoId (parse_altimeter l m) = icaoId m" "obsTime (parse_altimeter l m) = obsTime m"
  "hasVisib (parse_altimeter l m) = hasVisib m" "visib (parse_altimeter l m) = visib m"
  "hasThunderstorm (parse_altimeter l m) = hasThunderstorm m"
  "cloudLayers (parse_altimeter l m) = cloudLayers m"
  by (simp_all add: parse_altimeter_def field_set split: option.splits)

lemmas block_frame = parse_thunderstorm_frame parse_icao_frame parse_wind_frame
  parse_visibility_frame parse_temperature_frame parse_altimeter_frame

subsection \<open>The fields of a parsed report\<close>

lemma parse_decompose:
  assumes "parse line = Some m" and "10 \<le> length line"
  obtains layers m2 where "cloud_loop line [] (parse_before_clouds line) = Some (layers, m2)"
    and "m2 = parse_before_clouds line \<or> m2 = setThunderstorm True (parse_before_clouds line)"
    and "m = parse_after_clouds line (m2\<lparr>cloudLayers := layers\<rparr>)"
proof -
  from assms obtain layers m2 where cl: "cloud_loop line [] (parse_before_clouds line) = Some (layers, m2)"
    and m: "m = parse_after_clouds line (m2\<lparr>cloudLayers := layers\<rparr>)"
    by (auto simp: parse_def parseCloudConditions_def split: option.splits)
  with cloud_loop_metar [OF cl] that show thesis
    by blast
qed

lemma icaoId_parse_icao:
  "icaoId m = [] \<Longrightarrow> icaoId (parse_icao l m) = icaoId (parse_icao l METAR_init)"
  by (simp add: parse_icao_def Let_def safeCopy_def METAR_init_def)

lemma parse_thunderstorm_token:
  "parse_thunderstorm l m = (if thunderstorm_token l then setThunderstorm True m else m)"
  by (simp add: parse_thunderstorm_def thunderstorm_token_def split: option.splits)

lemma before_clouds_fields:
  "icaoId (parse_before_clouds line) = icaoId (parse_icao line METAR_init)"
  "obsTime (parse_before_clouds line) = (case parseObsTime line of None \<Rightarrow> [] | Some t \<Rightarrow> safeCopy 8 t)"
  "\<not> hasVisib (parse_before_clouds line)" "visib (parse_before_clouds line) = 0"
  "\<not> hasAltim (parse_before_clouds line)" "altim (parse_before_clouds line) = 0"
  "hasThunderstorm (parse_before_clouds line) = thunderstorm_token line"
proof -
  define M where "M = parse_thunderstorm line
      (case parseObsTime line of None \<Rightarrow> setRawText line METAR_init
       | Some t \<Rightarrow> setObsTime t (setRawText line METAR_init))"
  have "icaoId M = []"
    by (simp add: M_def block_frame field_set METAR_init_def split: option.splits)
  then have "icaoId (parse_icao line M) = icaoId (parse_icao line METAR_init)"
    by (rule icaoId_parse_icao)
  moreover have "icaoId (parse_before_clouds line) = icaoId (parse_icao line M)"
    by (simp add: parse_before_clouds_def Let_def M_def block_frame)
  ultimately show "icaoId (parse_before_clouds line) = icaoId (parse_icao line METAR_init)"
    by simp
  show "obsTime (parse_before_clouds line) = (case parseObsTime line of None \<Rightarrow> [] | Some t \<Rightarrow> safeCopy 8 t)"
    by (simp add: parse_before_clouds_def Let_def block_frame field_set METAR_init_def
        split: option.splits)
  show "\<not> hasVisib (parse_before_clouds line)" "\<not> hasAltim (parse_before_clouds line)"
    by (simp_all add: parse_before_clouds_def Let_def block_frame field_set init_flags
        split: option.splits)
  show "visib (parse_before_clouds line) = 0" "altim (parse_before_clouds line) = 0"
    by (simp_all add: parse_before_clouds_def Let_def block_frame field_set METAR_init_def
        split: option.splits)
  show "hasThunderstorm (parse_before_clouds line) = thunderstorm_token line"
    by (simp add: parse_before_clouds_def Let_def block_frame field_set init_flags
        parse_thunderstorm_token split: option.splits)
qed

lemma after_clouds_fields:
  "icaoId (parse_after_clouds line m) = icaoId m"
  "obsTime (parse_after_clouds line m) = obsTime m"
  "hasThunderstorm (parse_after_clouds line m) = hasThunderstorm m"
  "cloudLayers (parse_after_clouds line m) = cloudLayers m"
  "hasVisib (parse_after_clouds line m) = hasVisib (parse_visibility line m)"
  "visib (parse_after_clouds line m) = visib (parse_visibility line m)"
  "hasAltim (parse_after_clouds line m) = hasAltim (parse_altimeter line m)"
  "altim (parse_after_clouds line m) = altim (parse_altimeter line m)"
proof -
  show "icaoId (parse_after_clouds line m) = icaoId m"
    "obsTime (parse_after_clouds line m) = obsTime m"
    "hasThunderstorm (parse_after_clouds line m) = hasThunderstorm m"
    "cloudLayers (parse_after_clouds line m) = cloudLayers m"
    "hasVisib (parse_after_clouds line m) = hasVisib (parse_visibility line m)"
    "visib (parse_after_clouds line m) = visib (parse_visibility line m)"
    by (simp_all add: parse_after_clouds_def Let_def block_frame field_set)
  have "hasAltim (parse_altimeter line m') = (hasAltim m' \<or> altim_scan line \<noteq> None)" for m'
    by (simp add: parse_altimeter_def field_set split: option.splits)
  then show "hasAltim (parse_after_clouds line m) = hasAltim (parse_altimeter line m)"
    by (simp add: parse_after_clouds_def Let_def block_frame field_set)
  have "altim (parse_altimeter line m') = (case altim_scan line of None \<Rightarrow> altim m' | Some a \<Rightarrow> a)" for m'
    by (simp add: parse_altimeter_def field_set split: option.splits)
  then show "altim (parse_after_clouds line m) = altim (parse_altimeter line m)"
    by (simp add: parse_after_clouds_def Let_def block_frame field_set split: option.splits)
qed

lemma parse_short: "length line < 10 \<Longrightarrow> parse line = Some METAR_init"
  by (simp add: parse_def)

subsection \<open>The cloud scan stays inside a text without trailing spaces\<close>

lemma no_trailing_space_drop: "no_trailing_space s \<Longrightarrow> no_trailing_space (drop n s)"
  by (cases "n < length s") (auto simp: no_trailing_space_def last_drop)

lemma no_trailing_space_skip: "no_trailing_space s \<Longrightarrow> no_trailing_space (skip_spaces s)"
  unfolding skip_spaces_def dropWhile_eq_drop by (rule no_trailing_space_drop)

lemma no_trailing_space_tl: "no_trailing_space (c # p') \<Longrightarrow> no_trailing_space p'"
  using no_trailing_space_drop [of "c # p'" 1] by simp

lemma skip_spaces_nonempty: "no_trailing_space s \<Longrightarrow> s \<noteq> [] \<Longrightarrow> skip_spaces s \<noteq> []"
proof -
  assume "no_trailing_space s" "s \<noteq> []"
  then have "last s \<in> set s" "last s \<noteq> CHR '' ''"
    by (simp_all add: no_trailing_space_def)
  then show ?thesis
    by (auto simp: skip_spaces_def dropWhile_eq_Nil_conv)
qed

lemma cloud_loop_total:
  "no_trailing_space pos \<Longrightarrow> \<exists>r. cloud_loop pos layers m = Some r"
proof (induction pos layers m rule: cloud_loop.induct)
  case (1 pos layers metar)
  show ?case
  proof (cases "pos = [] \<or> 10 \<le> length layers")
    case True
    then show ?thesis by (simp add: cloud_loop.simps [of pos layers metar])
  next
    case False
    define p where "p = skip_spaces pos"
    have p_nts: "no_trailing_space p" and p_ne: "p \<noteq> []"
      using "1.prems" False by (simp_all add: p_def no_trailing_space_skip skip_spaces_nonempty)
    show ?thesis
    proof (cases "match_code p")
      case None
      from p_ne obtain c p' where p: "p = c # p'"
        by (cases p) auto
      with p_nts have "no_trailing_space p'"
        by (simp add: no_trailing_space_tl)
      from "1.IH"(1) [OF False p_def None p this] None p False show ?thesis
        by (simp add: cloud_loop.simps [of pos layers metar] p_def [symmetric])
    next
      case (Some code)
      define q where "q = drop (length code) p"
      have q_nts: "no_trailing_space q" "no_trailing_space (drop 3 q)"
        "no_trailing_space (drop 2 (drop 3 q))" "no_trailing_space (drop 3 (drop 3 q))"
        using p_nts by (simp_all add: q_def no_trailing_space_drop)
      note ih = "1.IH"(2-6) [OF False p_def Some q_def]
      have unfold: "cloud_loop pos layers metar =
        (if code = ''SKC'' \<or> code = ''CLR''
          then cloud_loop q (layers @ [\<lparr>coverage = take 3 code, height = 0, layer_type = []\<rparr>]) metar
          else if digits3 q
          then let h = int (atoi3 q); r = drop 3 q
               in if starts_with r ''CB''
                  then cloud_loop (drop 2 r)
                         (layers @ [\<lparr>coverage = take 3 code, height = h, layer_type = ''CB''\<rparr>])
                         (setThunderstorm True metar)
                  else if starts_with r ''TCU''
                  then cloud_loop (drop 3 r)
                         (layers @ [\<lparr>coverage = take 3 code, height = h, layer_type = ''TCU''\<rparr>]) metar
                  else cloud_loop r
                         (layers @ [\<lparr>coverage = take 3 code, height = h, layer_type = []\<rparr>]) metar
          else cloud_loop q layers metar)"
        using False Some
        by (simp add: cloud_loop.simps [of pos layers metar] p_def [symmetric] q_def [symmetric]
            Let_def)
      show ?thesis
      proof (cases "code = ''SKC'' \<or> code = ''CLR''")
        case True
        with unfold ih(1) [OF True q_nts(1)] show ?thesis by simp
      next
        case nclr: False
        show ?thesis
        proof (cases "digits3 q")
          case False
          with unfold nclr ih(5) [OF nclr False q_nts(1)] show ?thesis by simp
        next
          case True
          show ?thesis
          proof (cases "starts_with (drop 3 q) ''CB''")
            case cb: True
            from ih(2) [OF nclr True refl refl cb q_nts(3)] unfold nclr True cb show ?thesis
              by (simp add: Let_def)
          next
            case ncb: False
            show ?thesis
            proof (cases "starts_with (drop 3 q) ''TCU''")
              case tcu: True
              from ih(3) [OF nclr True refl refl ncb tcu q_nts(4)] unfold nclr True ncb tcu
              show ?thesis by (simp add: Let_def)
            next
              case ntcu: False
              from ih(4) [OF nclr True refl refl ncb ntcu q_nts(2)] unfold nclr True ncb ntcu
              show ?thesis by (simp add: Let_def)
            qed
          qed
        qed
      qed
    qed
  qed
qed

lemma parse_total: "no_trailing_space line \<Longrightarrow> \<exists>m. parse line = Some m"
  using cloud_loop_total [of line "[]" "parse_before_clouds line"]
  by (auto simp: parse_def parseCloudConditions_def)

lemma no_trailing_space_trim: "no_trailing_space (trim s)"
proof (cases "trim s = []")
  case True
  then show ?thesis by (simp add: no_trailing_space_def)
next
  case False
  define t where "t = dropWhile isspace (rev (dropWhile isspace s))"
  from False have "t \<noteq> []"
    by (simp add: trim_def t_def)
  then have "\<not> isspace (hd t)"
    unfolding t_def by (rule hd_dropWhile)
  moreover have "last (trim s) = hd t"
    using \<open>t \<noteq> []\<close> by (simp add: trim_def t_def [symmetric] last_rev)
  moreover have "isspace (CHR '' '')"
    by (simp add: isspace_def)
  ultimately show ?thesis
    by (auto simp: no_trailing_space_def)
qed

subsection \<open>Each field of the result, from its own block\<close>

lemma parse_fields:
  assumes "parse line = Some m" and "10 \<le> length line"
  shows "icaoId m = icaoId (parse_icao line METAR_init)"
    and "obsTime m = (case parseObsTime line of None \<Rightarrow> [] | Some t \<Rightarrow> safeCopy 8 t)"
    and "hasVisib m = (\<exists>tok. visibility_token line = Some tok \<and> char_at tok 0 \<noteq> CHR ''R'')"
    and "visib m = (case visibility_token line of
                      None \<Rightarrow> 0
                    | Some tok \<Rightarrow> if char_at tok 0 \<noteq> CHR ''R'' then parseVisibility tok else 0)"
    and "hasAltim m = (altim_scan line \<noteq> None)"
    and "altim m = (case altim_scan line of None \<Rightarrow> 0 | Some a \<Rightarrow> a)"
    and "thunderstorm_token line \<Longrightarrow> hasThunderstorm m"
proof -
  from assms obtain layers m2 where
    m2: "m2 = parse_before_clouds line \<or> m2 = setThunderstorm True (parse_before_clouds line)"
    and m: "m = parse_after_clouds line (m2\<lparr>cloudLayers := layers\<rparr>)"
    by (rule parse_decompose)
  let ?x = "m2\<lparr>cloudLayers := layers\<rparr>"
  from m2 have x: "icaoId ?x = icaoId (parse_icao line METAR_init)"
    "obsTime ?x = (case parseObsTime line of None \<Rightarrow> [] | Some t \<Rightarrow> safeCopy 8 t)"
    "\<not> hasVisib ?x" "visib ?x = 0" "\<not> hasAltim ?x" "altim ?x = 0"
    "thunderstorm_token line \<Longrightarrow> hasThunderstorm ?x"
    using before_clouds_fields [of line] by (auto simp: field_set)
  show "icaoId m = icaoId (parse_icao line METAR_init)"
    and "obsTime m = (case parseObsTime line of None \<Rightarrow> [] | Some t \<Rightarrow> safeCopy 8 t)"
    and "thunderstorm_token line \<Longrightarrow> hasThunderstorm m"
    using x by (simp_all add: m after_clouds_fields)
  show "hasVisib m = (\<exists>tok. visibility_token line = Some tok \<and> char_at tok 0 \<noteq> CHR ''R'')"
    using x(3) by (simp add: m after_clouds_fields parse_visibility_def field_set split: option.splits)
  show "visib m = (case visibility_token line of
                      None \<Rightarrow> 0
                    | Some tok \<Rightarrow> if char_at tok 0 \<noteq> CHR ''R'' then parseVisibility tok else 0)"
    using x(4) by (simp add: m after_clouds_fields parse_visibility_def field_set split: option.splits)
  show "hasAltim m = (altim_scan line \<noteq> None)"
    using x(5) by (simp add: m after_clouds_fields parse_altimeter_def field_set split: option.splits)
  show "altim m = (case altim_scan line of None \<Rightarrow> 0 | Some a \<Rightarrow> a)"
    using x(6) by (simp add: m after_clouds_fields parse_altimeter_def field_set split: option.splits)
qed

section \<open>Visibility\<close>








section \<open>Altimeter\<close>









section \<open>Ceiling\<close>










section \<open>Observation time\<close>

lemma parseObsTime_length: "parseObsTime line = Some t \<Longrightarrow> length t = 7"
  by (auto simp: parseObsTime_def Let_def split: if_splits)

text \<open>
  What \<open>parse\<close> does in general: the observation time is present exactly when the
  line has at least 10 characters and \<open>parseObsTime\<close> accepts it.
\<close>

lemma observation_time_flag:
  assumes "parse line = Some m"
  shows "hasObsTime m = (10 \<le> length line \<and> parseObsTime line \<noteq> None)"
proof (cases "10 \<le> length line")
  case False
  with assms show ?thesis
    by (auto simp: parse_def hasObsTime_def METAR_init_def)
next
  case True
  show ?thesis
  proof (cases "parseObsTime line")
    case None
    with parse_fields(2) [OF assms True] True show ?thesis
      by (simp add: hasObsTime_def)
  next
    case (Some t)
    with parse_fields(2) [OF assms True] True parseObsTime_length [OF Some] show ?thesis
      by (simp add: hasObsTime_def safeCopy_def)
  qed
qed

lemma speci_blocks:
  "parseObsTime ''SPECI KSFO 081856Z 28015KT 10SM FEW015 15/12 A3012'' = None"
  "icaoId (parse_icao ''SPECI KSFO 081856Z 28015KT 10SM FEW015 15/12 A3012'' METAR_init) = ''KSFO''"
  "parseObsTime ''METAR KSFO 081856Z 28015KT 10SM FEW015 15/12 A3012'' = Some ''081856Z''"
  "icaoId (parse_icao ''METAR KSFO 081856Z 28015KT 10SM FEW015 15/12 A3012'' METAR_init) = ''KSFO''"
  by code_simp+

lemma parse_id_time:
  assumes "no_trailing_space line" "10 \<le> length line"
  shows "map_option (\<lambda>m. (icaoId m, obsTime m)) (parse line)
     = Some (icaoId (parse_icao line METAR_init),
             case parseObsTime line of None \<Rightarrow> [] | Some t \<Rightarrow> safeCopy 8 t)"
proof -
  from assms(1) obtain m where m: "parse line = Some m"
    using parse_total by blast
  from parse_fields(1,2) [OF m assms(2)] m show ?thesis
    by simp
qed

text \<open>
  C9. On a special report, \<open>parseObsTime\<close> does not skip the prefix \<open>SPECI\<close> as the
  identifier block of \<open>parse\<close> does: for a well-formed line with that prefix the
  identifier is found and the observation time is left absent, while the same line with
  the prefix \<open>METAR\<close> gets its observation time.
\<close>

theorem C9_speci_prefix_loses_timestamp:
  "parseObsTime ''SPECI KSFO 081856Z 28015KT 10SM FEW015 15/12 A3012'' = None
   \<and> map_option (\<lambda>m. (icaoId m, obsTime m, hasObsTime m))
        (parse ''SPECI KSFO 081856Z 28015KT 10SM FEW015 15/12 A3012'')
       = Some (''KSFO'', [], False)
   \<and> parseObsTime ''METAR KSFO 081856Z 28015KT 10SM FEW015 15/12 A3012'' = Some ''081856Z''
   \<and> map_option (\<lambda>m. (icaoId m, obsTime m, hasObsTime m))
        (parse ''METAR KSFO 081856Z 28015KT 10SM FEW015 15/12 A3012'')
       = Some (''KSFO'', ''081856Z'', True)"
proof -
  have a: "map_option (\<lambda>m. (icaoId m, obsTime m))
        (parse ''SPECI KSFO 081856Z 28015KT 10SM FEW015 15/12 A3012'') = Some (''KSFO'', [])"
    by (subst parse_id_time) (simp_all add: no_trailing_space_def speci_blocks)
  have b: "map_option (\<lambda>m. (icaoId m, obsTime m))
        (parse ''METAR KSFO 081856Z 28015KT 10SM FEW015 15/12 A3012'') = Some (''KSFO'', ''081856Z'')"
    by (subst parse_id_time) (simp_all add: no_trailing_space_def speci_blocks safeCopy_def)
  from a b speci_blocks(1,3) show ?thesis
    by (auto simp: hasObsTime_def)
qed

theorem C9_speci_prefix_loses_timestamp_witness:
  "parseObsTime ''SPECI KSFO 081856Z 28015KT 10SM FEW015 15/12 A3012'' = None
   \<and> parseObsTime ''METAR KSFO 081856Z 28015KT 10SM FEW015 15/12 A3012'' = Some ''081856Z''"
  using C9_speci_prefix_loses_timestamp by blast

section \<open>Thunderstorm flag\<close>

lemma cloud_loop_cb:
  "cloud_loop pos layers m = Some (ls, m') \<Longrightarrow>
     \<exists>new. ls = layers @ new \<and> hasThunderstorm m' = (hasThunderstorm m \<or> list_ex cb_layer new)"
proof (induction pos layers m rule: cloud_loop.induct)
  case (1 pos layers metar)
  show ?case
  proof (cases "pos = [] \<or> 10 \<le> length layers")
    case True
    with "1.prems" show ?thesis by (simp add: cloud_loop.simps [of pos layers metar])
  next
    case False
    define p where "p = skip_spaces pos"
    show ?thesis
    proof (cases "match_code p")
      case None
      with False "1.prems" obtain c p' where p: "p = c # p'" and r: "cloud_loop p' layers metar = Some (ls, m')"
        by (cases p) (auto simp: cloud_loop.simps [of pos layers metar] p_def [symmetric] Let_def)
      from "1.IH"(1) [OF False p_def None p r] show ?thesis .
    next
      case (Some code)
      define q where "q = drop (length code) p"
      note ih = "1.IH"(2-6) [OF False p_def Some q_def]
      from False "1.prems" Some have unfold:
        "(if code = ''SKC'' \<or> code = ''CLR''
          then cloud_loop q (layers @ [\<lparr>coverage = take 3 code, height = 0, layer_type = []\<rparr>]) metar
          else if digits3 q
          then let h = int (atoi3 q); r = drop 3 q
               in if starts_with r ''CB''
                  then cloud_loop (drop 2 r)
                         (layers @ [\<lparr>coverage = take 3 code, height = h, layer_type = ''CB''\<rparr>])
                         (setThunderstorm True metar)
                  else if starts_with r ''TCU''
                  then cloud_loop (drop 3 r)
                         (layers @ [\<lparr>coverage = take 3 code, height = h, layer_type = ''TCU''\<rparr>]) metar
                  else cloud_loop r
                         (layers @ [\<lparr>coverage = take 3 code, height = h, layer_type = []\<rparr>]) metar
          else cloud_loop q layers metar) = Some (ls, m')"
        by (simp add: cloud_loop.simps [of pos layers metar] p_def [symmetric] q_def [symmetric]
            Let_def)
      show ?thesis
      proof (cases "code = ''SKC'' \<or> code = ''CLR''")
        case True
        with unfold have "cloud_loop q (layers @ [\<lparr>coverage = take 3 code, height = 0, layer_type = []\<rparr>])
            metar = Some (ls, m')"
          by simp
        from ih(1) [OF True this] show ?thesis
          by (auto simp: cb_layer_def)
      next
        case nclr: False
        show ?thesis
        proof (cases "digits3 q")
          case False
          with unfold nclr ih(5) show ?thesis by simp
        next
          case True
          show ?thesis
          proof (cases "starts_with (drop 3 q) ''CB''")
            case cb: True
            with unfold nclr True have "cloud_loop (drop 2 (drop 3 q))
                (layers @ [\<lparr>coverage = take 3 code, height = int (atoi3 q), layer_type = ''CB''\<rparr>])
                (setThunderstorm True metar) = Some (ls, m')"
              by (simp add: Let_def)
            from ih(2) [OF nclr True refl refl cb this] show ?thesis
              by (auto simp: cb_layer_def hasThunderstorm_set)
          next
            case ncb: False
            show ?thesis
            proof (cases "starts_with (drop 3 q) ''TCU''")
              case tcu: True
              with unfold nclr True ncb have "cloud_loop (drop 3 (drop 3 q))
                  (layers @ [\<lparr>coverage = take 3 code, height = int (atoi3 q), layer_type = ''TCU''\<rparr>])
                  metar = Some (ls, m')"
                by (simp add: Let_def)
              from ih(3) [OF nclr True refl refl ncb tcu this] show ?thesis
                by (auto simp: cb_layer_def)
            next
              case ntcu: False
              with unfold nclr True ncb have "cloud_loop (drop 3 q)
                  (layers @ [\<lparr>coverage = take 3 code, height = int (atoi3 q), layer_type = []\<rparr>])
                  metar = Some (ls, m')"
                by (simp add: Let_def)
              from ih(4) [OF nclr True refl refl ncb ntcu this] show ?thesis
                by (auto simp: cb_layer_def)
            qed
          qed
        qed
      qed
    qed
  qed
qed

text \<open>
  What \<open>parse\<close> does in general: the flag is set exactly when the first \<open>TS\<close> at or
  after the first \<open>KT\<close> of the line does not begin \<open>TSNO\<close>, or a parsed cloud layer
  carries the cumulonimbus modifier.
\<close>

lemma thunderstorm_flag:
  assumes "parse line = Some m"
  shows "hasThunderstorm m
     = (10 \<le> length line \<and> (thunderstorm_token line \<or> list_ex cb_layer (cloudLayers m)))"
proof (cases "10 \<le> length line")
  case False
  with assms show ?thesis
    by (auto simp: parse_def init_flags)
next
  case True
  from assms True obtain layers m2 where
    cl: "cloud_loop line [] (parse_before_clouds line) = Some (layers, m2)"
    and m: "m = parse_after_clouds line (m2\<lparr>cloudLayers := layers\<rparr>)"
    by (rule parse_decompose)
  from cloud_loop_cb [OF cl] have "hasThunderstorm m2
      = (hasThunderstorm (parse_before_clouds line) \<or> list_ex cb_layer layers)"
    by simp
  with True show ?thesis
    by (simp add: m after_clouds_fields field_set before_clouds_fields)
qed


lemma ktsp_blocks:
  "thunderstorm_token ''KTSP 081856Z 28015KT 10SM CLR 15/12 A3012''"
  "cloud_loop ''KTSP 081856Z 28015KT 10SM CLR 15/12 A3012'' [] m
     = Some ([\<lparr>coverage = ''CLR'', height = 0, layer_type = []\<rparr>], m)"
  "strstr (drop 4 ''KTSP 081856Z 28015KT 10SM CLR 15/12 A3012'') ''TS'' = None"
  "\<not> thunderstorm_token ''KSFO 081856Z 28015KT 10SM CLR 15/12 A3012''"
  "cloud_loop ''KSFO 081856Z 28015KT 10SM CLR 15/12 A3012'' [] m
     = Some ([\<lparr>coverage = ''CLR'', height = 0, layer_type = []\<rparr>], m)"
  by code_simp+

lemma parse_storm_layers:
  assumes "10 \<le> length line" "cloud_loop line [] (parse_before_clouds line) = Some (ls, parse_before_clouds line)"
  shows "map_option (\<lambda>m. (hasThunderstorm m, cloudLayers m)) (parse line)
     = Some (thunderstorm_token line, ls)"
  using assms
  by (simp add: parse_def parseCloudConditions_def after_clouds_fields field_set before_clouds_fields)

text \<open>
  C5. For the station KTSP the first \<open>KT\<close> of the line is inside the identifier and
  the \<open>TS\<close> that follows it is the rest of the identifier: the report has no
  thunderstorm token after its wind group (no \<open>TS\<close> anywhere after the identifier) and
  no cumulonimbus layer, and the thunderstorm flag is set all the same. The same report
  for KSFO does not set it.
\<close>

theorem C5_identifier_read_as_thunderstorm:
  "map_option (\<lambda>m. (hasThunderstorm m, cloudLayers m))
       (parse ''KTSP 081856Z 28015KT 10SM CLR 15/12 A3012'')
     = Some (True, [\<lparr>coverage = ''CLR'', height = 0, layer_type = []\<rparr>])
   \<and> strstr (drop 4 ''KTSP 081856Z 28015KT 10SM CLR 15/12 A3012'') ''TS'' = None
   \<and> map_option (\<lambda>m. (hasThunderstorm m, cloudLayers m))
       (parse ''KSFO 081856Z 28015KT 10SM CLR 15/12 A3012'')
     = Some (False, [\<lparr>coverage = ''CLR'', height = 0, layer_type = []\<rparr>])"
proof -
  have a: "map_option (\<lambda>m. (hasThunderstorm m, cloudLayers m))
       (parse ''KTSP 081856Z 28015KT 10SM CLR 15/12 A3012'')
     = Some (True, [\<lparr>coverage = ''CLR'', height = 0, layer_type = []\<rparr>])"
    by (subst parse_storm_layers [OF _ ktsp_blocks(2)]) (simp_all add: ktsp_blocks)
  have b: "map_option (\<lambda>m. (hasThunderstorm m, cloudLayers m))
       (parse ''KSFO 081856Z 28015KT 10SM CLR 15/12 A3012'')
     = Some (False, [\<lparr>coverage = ''CLR'', height = 0, layer_type = []\<rparr>])"
    by (subst parse_storm_layers [OF _ ktsp_blocks(5)]) (simp_all add: ktsp_blocks)
  from a b ktsp_blocks(3) show ?thesis
    by simp
qed

section \<open>The overlays\<close>

lemma length_set_where: "length (set_where cond colour idx ls) = length ls"
  unfolding set_where_def by (induction idx arbitrary: ls) simp_all

lemma set_where_upt:
  "i < length ls \<Longrightarrow>
     set_where cond colour [0..<n] ls ! i = (if i < n \<and> cond i then colour i else ls ! i)"
proof (induction n)
  case 0
  then show ?case by (simp add: set_where_def)
next
  case (Suc n)
  have step: "set_where cond colour ([0..<n] @ [n]) ls =
      (if cond n then (set_where cond colour [0..<n] ls)[n := colour n]
       else set_where cond colour [0..<n] ls)"
    by (simp add: set_where_def)
  from Suc show ?case
    by (auto simp: step length_set_where nth_list_update less_Suc_eq)
qed

lemma slot_nth:
  assumes "length ls = numLeds ctl" "i < length airports" "i < numLeds ctl"
  shows "set_where cond colour (slot_indices airports ctl) ls ! i = (if cond i then colour i else ls ! i)"
  using assms by (simp add: slot_indices_def set_where_upt)

text \<open>
  C6. For a slot inside the strip: \<open>updateWindBlink\<close> never writes the LED of a slot
  whose observation carries the thunderstorm flag (so the overlay sets it neither to the
  wind-warning colour nor to off); when the wind feature and the display are on, the last
  fetch succeeded and at least 1000 ms (modulo \<open>2^32\<close>) have passed since the last toggle,
  the toggle flips, its time is recorded, and every slot with valid data, a wind speed
  above the threshold and no thunderstorm flag is set to the wind-warning colour in the
  on phase and to off in the off phase; before the interval has passed nothing changes.
\<close>

theorem C6_wind_blink:
  assumes "length (leds ctl) = numLeds ctl" and "i < length airports" and "i < numLeds ctl"
  shows "(let ctl' = updateWindBlink g currentMillis airports ctl; a = airports ! i
          in (hasThunderstorm (metarData a) \<longrightarrow> leds ctl' ! i = leds ctl ! i)
           \<and> (windEnabled g \<and> ledsEnabled g \<and> lastFetchStatus g = SUCCESS
                \<and> WIND_BLINK_INTERVAL \<le> currentMillis - lastWindBlinkTime ctl
              \<longrightarrow> windBlinkState ctl' = (\<not> windBlinkState ctl)
                \<and> lastWindBlinkTime ctl' = currentMillis
                \<and> (hasValidData a \<and> hasWspd (metarData a) \<and> wspd (metarData a) > windThreshold g
                      \<and> \<not> hasThunderstorm (metarData a)
                    \<longrightarrow> leds ctl' ! i = (if windBlinkState ctl' then LED_WIND_WARNING else LED_OFF)))
           \<and> (\<not> WIND_BLINK_INTERVAL \<le> currentMillis - lastWindBlinkTime ctl \<longrightarrow> ctl' = ctl))"
  using assms
  by (simp add: updateWindBlink_def Let_def slot_nth wind_slot_def)


lemma example_flags:
  "hasWspd (setWspd 30 METAR_init)" "\<not> hasThunderstorm (setWspd 30 METAR_init)"
  "hasThunderstorm (setThunderstorm True (setWspd 30 METAR_init))"
  "wspd (setWspd 30 METAR_init) = 30"
  by (simp_all add: hasWspd_def hasThunderstorm_def setter_defs flag_defs METAR_init_def)

theorem C6_wind_blink_witness:
  "leds (updateWindBlink example_settings 1000 example_airports example_controller) ! 0 = LED_OFF
   \<and> leds (updateWindBlink example_settings 1000 example_airports example_controller) ! 1
       = LED_WIND_WARNING
   \<and> \<not> windBlinkState (updateWindBlink example_settings 1000 example_airports example_controller)"
  using C6_wind_blink [of example_controller 0 example_airports example_settings 1000]
    C6_wind_blink [of example_controller 1 example_airports example_settings 1000]
  by (simp add: Let_def example_settings_def example_airports_def example_controller_def
      example_flags windEnabled_def ledsEnabled_def windThreshold_def WIND_BLINK_INTERVAL_def)

lemma updateThunderstorms_restore:
  assumes "thunderstormsEnabled g" "ledsEnabled g" "lastFetchStatus g = SUCCESS"
    "list_ex (\<lambda>i. storm_slot (airports ! i)) (slot_indices airports ctl)"
    "flashState ctl" "100 \<le> currentMillis - lastFlashTime ctl"
  shows "updateThunderstorms g currentMillis rnd airports ctl =
     ctl\<lparr> flashState := False,
          leds := set_where (\<lambda>i. storm_slot (airports ! i)) (\<lambda>i. baseColors ctl ! i)
                    (slot_indices airports ctl) (leds ctl),
          lastFlashTime := currentMillis \<rparr>"
  using assms by (simp add: updateThunderstorms_def)

lemma updateThunderstorms_trigger:
  assumes "thunderstormsEnabled g" "ledsEnabled g" "lastFetchStatus g = SUCCESS"
    "list_ex (\<lambda>i. storm_slot (airports ! i)) (slot_indices airports ctl)"
    "\<not> flashState ctl" "3000 \<le> currentMillis - lastFlashTime ctl"
  shows "updateThunderstorms g currentMillis rnd airports ctl =
     (if rnd < 20
      then ctl\<lparr> flashState := True,
                leds := set_where (\<lambda>i. storm_slot (airports ! i)) (\<lambda>i. LED_THUNDERSTORM)
                          (slot_indices airports ctl) (leds ctl),
                lastFlashTime := currentMillis \<rparr>
      else ctl)"
  using assms by (simp add: updateThunderstorms_def)

lemma updateThunderstorms_not_evaluated:
  assumes "\<not> (thunderstormsEnabled g \<and> ledsEnabled g \<and> lastFetchStatus g = SUCCESS
       \<and> list_ex (\<lambda>i. storm_slot (airports ! i)) (slot_indices airports ctl))"
  shows "updateThunderstorms g currentMillis rnd airports ctl = ctl"
  using assms by (auto simp: updateThunderstorms_def Let_def)

lemma updateThunderstorms_dwell:
  assumes "flashState ctl" "currentMillis - lastFlashTime ctl < 100"
  shows "updateThunderstorms g currentMillis rnd airports ctl = ctl"
  using assms by (auto simp: updateThunderstorms_def Let_def not_le [symmetric])

lemma updateThunderstorms_wait:
  assumes "\<not> flashState ctl" "currentMillis - lastFlashTime ctl < 3000"
  shows "updateThunderstorms g currentMillis rnd airports ctl = ctl"
  using assms by (auto simp: updateThunderstorms_def Let_def not_le [symmetric])

text \<open>
  C7. An evaluation of \<open>updateThunderstorms\<close> is a call with the feature and the
  display on, the last fetch successful and some slot in the strip with valid data and a
  thunderstorm flag. While flashing, an evaluation at least 100 ms (modulo \<open>2^32\<close>)
  after the last transition returns to idle, records the time and restores every affected
  slot to its stored resting colour, and a call before that changes nothing, so the first
  such evaluation does it. A flash starts only at an evaluation at least 3000 ms after
  the last transition, and only when the number drawn is below 20; it then records the
  time and sets every affected slot to the flash colour. At such an evaluation exactly 20
  of the 100 values that \<open>random(0, 100)\<close> can return start a flash.
\<close>

theorem C7_thunderstorm_flash:
  assumes "length (leds ctl) = numLeds ctl"
  shows "(let ctl' = updateThunderstorms g currentMillis rnd airports ctl;
              evaluated = (thunderstormsEnabled g \<and> ledsEnabled g \<and> lastFetchStatus g = SUCCESS
                \<and> list_ex (\<lambda>i. storm_slot (airports ! i)) (slot_indices airports ctl));
              affected = (\<lambda>i. i < length airports \<and> i < numLeds ctl \<and> hasValidData (airports ! i)
                \<and> hasThunderstorm (metarData (airports ! i)))
          in (evaluated \<and> flashState ctl \<and> 100 \<le> currentMillis - lastFlashTime ctl
              \<longrightarrow> \<not> flashState ctl' \<and> lastFlashTime ctl' = currentMillis
                \<and> (\<forall>i. affected i \<longrightarrow> leds ctl' ! i = baseColors ctl ! i))
           \<and> (flashState ctl \<and> currentMillis - lastFlashTime ctl < 100 \<longrightarrow> ctl' = ctl)
           \<and> (\<not> flashState ctl \<and> flashState ctl'
              \<longrightarrow> evaluated \<and> 3000 \<le> currentMillis - lastFlashTime ctl \<and> rnd < 20
                \<and> lastFlashTime ctl' = currentMillis
                \<and> (\<forall>i. affected i \<longrightarrow> leds ctl' ! i = LED_THUNDERSTORM))
           \<and> (evaluated \<and> \<not> flashState ctl \<and> 3000 \<le> currentMillis - lastFlashTime ctl
              \<longrightarrow> (flashState ctl' \<longleftrightarrow> rnd < 20)
                \<and> card {r. 0 \<le> r \<and> r < 100
                          \<and> flashState (updateThunderstorms g currentMillis r airports ctl)} = 20))"
proof -
  let ?ev = "thunderstormsEnabled g \<and> ledsEnabled g \<and> lastFetchStatus g = SUCCESS
                \<and> list_ex (\<lambda>i. storm_slot (airports ! i)) (slot_indices airports ctl)"
  let ?ctl = "\<lambda>r. updateThunderstorms g currentMillis r airports ctl"
  let ?aff = "\<lambda>i. i < length airports \<and> i < numLeds ctl \<and> hasValidData (airports ! i)
                \<and> hasThunderstorm (metarData (airports ! i))"
  have a: "\<not> flashState (?ctl rnd) \<and> lastFlashTime (?ctl rnd) = currentMillis
      \<and> (\<forall>i. ?aff i \<longrightarrow> leds (?ctl rnd) ! i = baseColors ctl ! i)"
    if "?ev" "flashState ctl" "100 \<le> currentMillis - lastFlashTime ctl"
    using that assms by (simp add: updateThunderstorms_restore slot_nth storm_slot_def)
  have b: "?ctl rnd = ctl" if "flashState ctl" "currentMillis - lastFlashTime ctl < 100"
    using that by (simp add: updateThunderstorms_dwell)
  have c: "?ev \<and> 3000 \<le> currentMillis - lastFlashTime ctl \<and> rnd < 20
      \<and> lastFlashTime (?ctl rnd) = currentMillis
      \<and> (\<forall>i. ?aff i \<longrightarrow> leds (?ctl rnd) ! i = LED_THUNDERSTORM)"
    if nf: "\<not> flashState ctl" and f: "flashState (?ctl rnd)"
  proof -
    have ev: "?ev"
    proof (rule ccontr)
      assume "\<not> ?ev"
      then have "?ctl rnd = ctl"
        by (rule updateThunderstorms_not_evaluated)
      with nf f show False by simp
    qed
    have el: "3000 \<le> currentMillis - lastFlashTime ctl"
    proof (rule ccontr)
      assume "\<not> 3000 \<le> currentMillis - lastFlashTime ctl"
      then have "currentMillis - lastFlashTime ctl < 3000"
        by (simp add: not_le)
      with nf have "?ctl rnd = ctl"
        by (rule updateThunderstorms_wait)
      with nf f show False by simp
    qed
    from ev el nf f have r: "rnd < 20"
      by (auto simp: updateThunderstorms_trigger split: if_splits)
    from ev el nf r assms show ?thesis
      by (simp add: updateThunderstorms_trigger slot_nth storm_slot_def)
  qed
  have d: "(flashState (?ctl rnd) \<longleftrightarrow> rnd < 20)
      \<and> card {r. 0 \<le> r \<and> r < 100 \<and> flashState (?ctl r)} = 20"
    if "?ev" "\<not> flashState ctl" "3000 \<le> currentMillis - lastFlashTime ctl"
  proof -
    have eq: "flashState (?ctl r) \<longleftrightarrow> r < 20" for r
      using that by (simp add: updateThunderstorms_trigger)
    have "{r. 0 \<le> r \<and> r < 100 \<and> flashState (?ctl r)} = {0..<20}"
      by (auto simp: eq)
    then show ?thesis
      by (simp add: eq)
  qed
  from a b c d show ?thesis
    unfolding Let_def by blast
qed


lemma example_flash:
  "updateThunderstorms example_settings 3000 5 example_airports example_controller
     = example_controller\<lparr> flashState := True, leds := [LED_WIND_WARNING, LED_THUNDERSTORM],
         lastFlashTime := 3000 \<rparr>"
  by (simp add: updateThunderstorms_def Let_def example_settings_def example_airports_def
      example_controller_def example_flags thunderstormsEnabled_def ledsEnabled_def
      slot_indices_def storm_slot_def set_where_def upt_rec_numeral)

theorem C7_thunderstorm_flash_witness:
  "flashState (updateThunderstorms example_settings 3000 5 example_airports example_controller)
   \<and> leds (updateThunderstorms example_settings 3000 5 example_airports example_controller) ! 1
       = LED_THUNDERSTORM
   \<and> \<not> flashState (updateThunderstorms example_settings 3100 5 example_airports
          (updateThunderstorms example_settings 3000 5 example_airports example_controller))
   \<and> leds (updateThunderstorms example_settings 3100 5 example_airports
          (updateThunderstorms example_settings 3000 5 example_airports example_controller)) ! 1
       = LED_WIND_WARNING"
proof -
  have ev: "thunderstormsEnabled example_settings \<and> ledsEnabled example_settings
      \<and> lastFetchStatus example_settings = SUCCESS
      \<and> list_ex (\<lambda>i. storm_slot (example_airports ! i)) (slot_indices example_airports c)"
    if "numLeds c = 2" for c
    using that
    by (simp add: example_settings_def example_airports_def example_flags thunderstormsEnabled_def
        ledsEnabled_def slot_indices_def storm_slot_def upt_rec_numeral)
  have aff: "(1::nat) < length example_airports \<and> hasValidData (example_airports ! 1)
      \<and> hasThunderstorm (metarData (example_airports ! 1))"
    by (simp add: example_airports_def example_flags)
  let ?c1 = "updateThunderstorms example_settings 3000 5 example_airports example_controller"
  have c0: "length (leds example_controller) = numLeds example_controller"
    "numLeds example_controller = 2" "\<not> flashState example_controller"
    "(3000 :: 32 word) \<le> 3000 - lastFlashTime example_controller"
    "baseColors example_controller ! 1 = LED_WIND_WARNING"
    by (simp_all add: example_controller_def)
  have c1: "length (leds ?c1) = numLeds ?c1" "numLeds ?c1 = 2" "flashState ?c1"
    "(100 :: 32 word) \<le> 3100 - lastFlashTime ?c1" "baseColors ?c1 ! 1 = LED_WIND_WARNING"
    by (simp_all add: example_flash) (simp_all add: example_controller_def)
  from C7_thunderstorm_flash [OF c0(1), of example_settings 3000 5 example_airports]
    ev [OF c0(2)] c0 aff
  have first: "flashState ?c1 \<and> leds ?c1 ! 1 = LED_THUNDERSTORM"
    unfolding Let_def by auto
  from C7_thunderstorm_flash [OF c1(1), of example_settings 3100 5 example_airports]
    ev [OF c1(2)] c1 aff
  have "\<not> flashState (updateThunderstorms example_settings 3100 5 example_airports ?c1)
    \<and> leds (updateThunderstorms example_settings 3100 5 example_airports ?c1) ! 1 = LED_WIND_WARNING"
    unfolding Let_def by auto
  with first show ?thesis
    by simp
qed

section \<open>The registry\<close>

lemma assign_slot_first_slot:
  "assign_slot airports m =
     (case first_slot airports (icaoId m) of
        None \<Rightarrow> (airports, False)
      | Some i \<Rightarrow> (airports[i := (airports ! i)\<lparr> metarData := m, hasValidData := True \<rparr>], True))"
  by (induction airports) (auto split: option.splits)

lemma assign_slot_merge: "fst (assign_slot airports m) = merge m airports"
  by (simp add: assign_slot_first_slot merge_def split: option.splits)

lemma assign_slot_none: "\<not> snd (assign_slot airports m) \<Longrightarrow> fst (assign_slot airports m) = airports"
  by (simp add: assign_slot_first_slot split: option.splits)

lemma first_slot_Some:
  "first_slot airports c = Some i \<Longrightarrow> i < length airports \<and> icaoCode (airports ! i) = c"
  by (induction airports arbitrary: i) (auto split: if_splits)

lemma first_slot_codes:
  "map icaoCode airports = map icaoCode airports' \<Longrightarrow> first_slot airports c = first_slot airports' c"
proof (induction airports arbitrary: airports')
  case Nil
  then show ?case by simp
next
  case (Cons a airports)
  then obtain b bs where "airports' = b # bs" "icaoCode a = icaoCode b"
      "map icaoCode airports = map icaoCode bs"
    by (cases airports') auto
  with Cons.IH [of bs] show ?case by simp
qed

lemma merge_codes: "map icaoCode (merge m airports) = map icaoCode airports"
proof (cases "first_slot airports (icaoId m)")
  case None
  then show ?thesis by (simp add: merge_def)
next
  case (Some i)
  then have "i < length airports"
    by (simp add: first_slot_Some)
  then have "(map icaoCode airports)[i := icaoCode (airports ! i)] = map icaoCode airports"
    by (simp add: list_update_same_conv)
  with Some show ?thesis
    by (simp add: merge_def map_update)
qed

lemma length_merge: "length (merge m airports) = length airports"
  by (simp add: merge_def split: option.splits)

lemma fold_merge_codes: "map icaoCode (fold merge ms airports) = map icaoCode airports"
  by (induction ms arbitrary: airports) (simp_all add: merge_codes)

lemma length_fold_merge: "length (fold merge ms airports) = length airports"
  by (induction ms arbitrary: airports) (simp_all add: length_merge)

text \<open>The counter only grows, and while it has not grown no slot has been written.\<close>

lemma parse_lines_count:
  "parse_lines rest airports n = Some (airports', n') \<Longrightarrow> n \<le> n' \<and> (n' = n \<longrightarrow> airports' = airports)"
proof (induction rest airports n rule: parse_lines.induct)
  case (1 rest airports parsedCount)
  show ?case
  proof (cases "CHR 0x0A \<in> set rest")
    case False
    with "1.prems" show ?thesis
      by (simp add: parse_lines.simps [of rest airports parsedCount])
  next
    case True
    define line where "line = trim (takeWhile (\<lambda>c. c \<noteq> CHR 0x0A) rest)"
    define rest' where "rest' = drop 1 (dropWhile (\<lambda>c. c \<noteq> CHR 0x0A) rest)"
    have nin: "\<not> CHR 0x0A \<notin> set rest"
      using True by simp
    note ih = "1.IH" [OF nin line_def rest'_def]
    have unfold: "parse_lines rest airports parsedCount =
      (if 10 < length line
       then (case parse line of
               None \<Rightarrow> None
             | Some metar \<Rightarrow>
                 if 0 < length (icaoId metar)
                 then parse_lines rest' (fst (assign_slot airports metar))
                        (if snd (assign_slot airports metar) then parsedCount + 1 else parsedCount)
                 else parse_lines rest' airports parsedCount)
       else parse_lines rest' airports parsedCount)"
      using True unfolding line_def rest'_def
      by (subst parse_lines.simps) (simp add: Let_def split: option.splits)
    show ?thesis
    proof (cases "10 < length line")
      case False
      with unfold "1.prems" ih(3) show ?thesis by simp
    next
      case long: True
      from unfold long "1.prems" obtain metar where metar: "parse line = Some metar"
        by (cases "parse line") auto
      show ?thesis
      proof (cases "0 < length (icaoId metar)")
        case False
        with unfold long metar "1.prems" ih(2) [OF long metar] show ?thesis by simp
      next
        case True
        with unfold long metar "1.prems"
        have r: "parse_lines rest' (fst (assign_slot airports metar))
            (if snd (assign_slot airports metar) then parsedCount + 1 else parsedCount)
            = Some (airports', n')"
          by simp
        from ih(1) [OF long metar True r] assign_slot_none [of airports metar] show ?thesis
          by (auto split: if_splits)
      qed
    qed
  qed
qed

lemma parse_lines_fold:
  "parse_lines rest airports n = Some (airports', n')
     \<Longrightarrow> airports' = fold merge (observations rest) airports"
proof (induction rest airports n rule: parse_lines.induct)
  case (1 rest airports parsedCount)
  show ?case
  proof (cases "CHR 0x0A \<in> set rest")
    case False
    with "1.prems" show ?thesis
      by (simp add: parse_lines.simps [of rest airports parsedCount] observations_def
          batch_lines.simps [of rest])
  next
    case True
    define line where "line = trim (takeWhile (\<lambda>c. c \<noteq> CHR 0x0A) rest)"
    define rest' where "rest' = drop 1 (dropWhile (\<lambda>c. c \<noteq> CHR 0x0A) rest)"
    have nin: "\<not> CHR 0x0A \<notin> set rest"
      using True by simp
    note ih = "1.IH" [OF nin line_def rest'_def]
    have unfold: "parse_lines rest airports parsedCount =
      (if 10 < length line
       then (case parse line of
               None \<Rightarrow> None
             | Some metar \<Rightarrow>
                 if 0 < length (icaoId metar)
                 then parse_lines rest' (fst (assign_slot airports metar))
                        (if snd (assign_slot airports metar) then parsedCount + 1 else parsedCount)
                 else parse_lines rest' airports parsedCount)
       else parse_lines rest' airports parsedCount)"
      using True unfolding line_def rest'_def
      by (subst parse_lines.simps) (simp add: Let_def split: option.splits)
    have lines: "batch_lines rest = (if 10 < length line then line # batch_lines rest' else batch_lines rest')"
      using True unfolding line_def rest'_def
      by (subst batch_lines.simps) (simp add: Let_def)
    show ?thesis
    proof (cases "10 < length line")
      case False
      with unfold "1.prems" ih(3) lines show ?thesis
        by (simp add: observations_def)
    next
      case long: True
      from unfold long "1.prems" obtain metar where metar: "parse line = Some metar"
        by (cases "parse line") auto
      show ?thesis
      proof (cases "0 < length (icaoId metar)")
        case False
        with unfold long metar "1.prems" ih(2) [OF long metar] lines show ?thesis
          by (simp add: observations_def)
      next
        case True
        with unfold long metar "1.prems"
        have r: "parse_lines rest' (fst (assign_slot airports metar))
            (if snd (assign_slot airports metar) then parsedCount + 1 else parsedCount)
            = Some (airports', n')"
          by simp
        from ih(1) [OF long metar True r] True long metar lines show ?thesis
          by (simp add: observations_def assign_slot_merge)
      qed
    qed
  qed
qed

lemma parse_lines_total: "\<exists>r. parse_lines rest airports n = Some r"
proof (induction rest airports n rule: parse_lines.induct)
  case (1 rest airports parsedCount)
  show ?case
  proof (cases "CHR 0x0A \<in> set rest")
    case False
    then show ?thesis
      by (simp add: parse_lines.simps [of rest airports parsedCount])
  next
    case True
    define line where "line = trim (takeWhile (\<lambda>c. c \<noteq> CHR 0x0A) rest)"
    define rest' where "rest' = drop 1 (dropWhile (\<lambda>c. c \<noteq> CHR 0x0A) rest)"
    have nin: "\<not> CHR 0x0A \<notin> set rest"
      using True by simp
    note ih = "1.IH" [OF nin line_def rest'_def]
    have unfold: "parse_lines rest airports parsedCount =
      (if 10 < length line
       then (case parse line of
               None \<Rightarrow> None
             | Some metar \<Rightarrow>
                 if 0 < length (icaoId metar)
                 then parse_lines rest' (fst (assign_slot airports metar))
                        (if snd (assign_slot airports metar) then parsedCount + 1 else parsedCount)
                 else parse_lines rest' airports parsedCount)
       else parse_lines rest' airports parsedCount)"
      using True unfolding line_def rest'_def
      by (subst parse_lines.simps) (simp add: Let_def split: option.splits)
    show ?thesis
    proof (cases "10 < length line")
      case False
      with unfold ih(3) show ?thesis by simp
    next
      case long: True
      have "no_trailing_space line"
        unfolding line_def by (rule no_trailing_space_trim)
      then obtain metar where metar: "parse line = Some metar"
        using parse_total by blast
      show ?thesis
      proof (cases "0 < length (icaoId metar)")
        case False
        with unfold long metar ih(2) [OF long metar] show ?thesis by simp
      next
        case True
        with unfold long metar ih(1) [OF long metar True] show ?thesis by simp
      qed
    qed
  qed
qed

lemma fold_merge_slot:
  assumes "i < length airports"
  shows "(let c = icaoCode (airports ! i); ms' = filter (\<lambda>m. icaoId m = c) ms
          in if ms' \<noteq> [] \<and> first_slot airports c = Some i
             then fold merge ms airports ! i
                    = (airports ! i)\<lparr> metarData := last ms', hasValidData := True \<rparr>
             else fold merge ms airports ! i = airports ! i)"
proof (induction ms rule: rev_induct)
  case Nil
  then show ?case by simp
next
  case (snoc m ms)
  define prev where "prev = fold merge ms airports"
  define c where "c = icaoCode (airports ! i)"
  have codes: "map icaoCode prev = map icaoCode airports" and len: "length prev = length airports"
    by (simp_all add: prev_def fold_merge_codes length_fold_merge)
  have fs: "first_slot prev x = first_slot airports x" for x
    using codes by (rule first_slot_codes)
  have step: "fold merge (ms @ [m]) airports = merge m prev"
    by (simp add: prev_def)
  have ih: "if filter (\<lambda>m. icaoId m = c) ms \<noteq> [] \<and> first_slot airports c = Some i
      then prev ! i = (airports ! i)\<lparr> metarData := last (filter (\<lambda>m. icaoId m = c) ms),
             hasValidData := True \<rparr>
      else prev ! i = airports ! i"
    using snoc by (simp add: Let_def prev_def c_def)
  show ?case
  proof (cases "first_slot airports (icaoId m) = Some i")
    case True
    then have "icaoId m = c"
      using first_slot_Some [of airports "icaoId m" i] by (simp add: c_def)
    with True ih assms len show ?thesis
      unfolding Let_def c_def [symmetric] step
      by (auto simp: merge_def fs split: if_splits)
  next
    case False
    have same: "merge m prev ! i = prev ! i"
      using False by (auto simp: merge_def fs split: option.splits)
    show ?thesis
    proof (cases "first_slot airports c = Some i")
      case True
      with False have "icaoId m \<noteq> c" by auto
      with True ih same show ?thesis
        unfolding Let_def c_def [symmetric] step by (auto split: if_splits)
    next
      case nf: False
      with ih same show ?thesis
        unfolding Let_def c_def [symmetric] step by (auto split: if_splits)
    qed
  qed
qed

lemma observations_have_id: "m \<in> set (observations rawData) \<Longrightarrow> icaoId m \<noteq> []"
  by (simp add: observations_def)

lemma updateFromAirports_nth:
  assumes "length (leds ctl) = numLeds ctl" "length (baseColors ctl) = numLeds ctl"
    "i < length airports" "i < numLeds ctl"
  shows "leds (updateFromAirports g airports ctl) ! i = resting_colour g (airports ! i)"
    and "baseColors (updateFromAirports g airports ctl) ! i = resting_colour g (airports ! i)"
  using assms by (simp_all add: updateFromAirports_def slot_nth)

lemma parseWeatherData_total: "\<exists>status airports'. parseWeatherData rawData airports = Some (status, airports')"
proof -
  obtain r where "parse_lines rawData airports 0 = Some r"
    using parse_lines_total by blast
  then show ?thesis
    by (cases r) (simp add: parseWeatherData_def)
qed

lemma parseWeatherData_result:
  assumes "parseWeatherData rawData airports = Some (status, airports')"
  shows "airports' = fold merge (observations rawData) airports"
    and "status \<noteq> SUCCESS \<Longrightarrow> airports' = airports"
proof -
  from assms obtain n where r: "parse_lines rawData airports 0 = Some (airports', n)"
    and st: "status = (if 0 < n then SUCCESS else PARSING_FAILURE)"
    by (auto simp: parseWeatherData_def split: option.splits)
  from r show "airports' = fold merge (observations rawData) airports"
    by (rule parse_lines_fold)
  from parse_lines_count [OF r] st show "status \<noteq> SUCCESS \<Longrightarrow> airports' = airports"
    by (auto split: if_splits)
qed

text \<open>
  C3. \<open>parseWeatherData\<close> always returns, and the registry it leaves is the result
  of merging, in order, the observations parsed from the batch that have an identifier,
  each into the first slot whose code equals its identifier. So for every slot: when some
  such observation carries the slot's code and the slot is the first one with that code,
  the slot's observation is replaced as a whole by the last of them and \<open>hasValidData\<close>
  is set; otherwise (in particular when no line of the batch matches its code) the slot,
  with its observation and \<open>hasValidData\<close>, is unchanged. A slot with an empty code is
  never modified, and \<open>updateFromAirports\<close> stores off for it.
\<close>

theorem C3_parseWeatherData_merge:
  "\<exists>status airports'.
     parseWeatherData rawData airports = Some (status, airports')
     \<and> airports' = fold merge (observations rawData) airports
     \<and> length airports' = length airports
     \<and> (\<forall>i < length airports.
          (let c = icaoCode (airports ! i);
               ms = filter (\<lambda>m. icaoId m = c) (observations rawData)
           in if ms \<noteq> [] \<and> first_slot airports c = Some i
              then airports' ! i = (airports ! i)\<lparr> metarData := last ms, hasValidData := True \<rparr>
              else airports' ! i = airports ! i)
          \<and> (isEmpty (airports ! i) \<longrightarrow>
                airports' ! i = airports ! i
                \<and> (length (leds ctl) = numLeds ctl \<and> length (baseColors ctl) = numLeds ctl
                     \<and> i < numLeds ctl
                    \<longrightarrow> leds (updateFromAirports g airports' ctl) ! i = LED_OFF
                      \<and> baseColors (updateFromAirports g airports' ctl) ! i = LED_OFF)))"
proof -
  obtain status airports' where r: "parseWeatherData rawData airports = Some (status, airports')"
    using parseWeatherData_total by blast
  have f: "airports' = fold merge (observations rawData) airports"
    using r by (rule parseWeatherData_result(1))
  have len: "length airports' = length airports"
    by (simp add: f length_fold_merge)
  have slot: "(let c = icaoCode (airports ! i);
               ms = filter (\<lambda>m. icaoId m = c) (observations rawData)
           in if ms \<noteq> [] \<and> first_slot airports c = Some i
              then airports' ! i = (airports ! i)\<lparr> metarData := last ms, hasValidData := True \<rparr>
              else airports' ! i = airports ! i)" if "i < length airports" for i
    unfolding f using that by (rule fold_merge_slot)
  have empty: "airports' ! i = airports ! i
      \<and> (length (leds ctl) = numLeds ctl \<and> length (baseColors ctl) = numLeds ctl \<and> i < numLeds ctl
          \<longrightarrow> leds (updateFromAirports g airports' ctl) ! i = LED_OFF
            \<and> baseColors (updateFromAirports g airports' ctl) ! i = LED_OFF)"
    if i: "i < length airports" and e: "isEmpty (airports ! i)" for i
  proof -
    from e have c: "icaoCode (airports ! i) = []"
      by (simp add: isEmpty_def)
    have "filter (\<lambda>m. icaoId m = []) (observations rawData) = []"
      using observations_have_id [of _ rawData] by (auto simp: filter_empty_conv)
    with slot [OF i] c have same: "airports' ! i = airports ! i"
      by (simp add: Let_def)
    with e have "resting_colour g (airports' ! i) = LED_OFF"
      by (simp add: resting_colour_def)
    with same i len show ?thesis
      by (simp add: updateFromAirports_nth)
  qed
  from r f len slot empty show ?thesis
    by blast
qed

lemma example_batch_lines:
  "batch_lines example_batch =
     [''KSFO 081856Z 28015KT 10SM CLR 15/12 A3012'', ''KSJC 081853Z 30008KT 10SM FEW020 16/11 A3011'']"
  unfolding example_batch_def by code_simp

lemma example_ids:
  "icaoId (parse_icao ''KSFO 081856Z 28015KT 10SM CLR 15/12 A3012'' METAR_init) = ''KSFO''"
  "icaoId (parse_icao ''KSJC 081853Z 30008KT 10SM FEW020 16/11 A3011'' METAR_init) = ''KSJC''"
  by code_simp+

lemma example_registry_slots:
  "length example_registry = 4"
  "icaoCode (example_registry ! 0) = ''KSFO''" "icaoCode (example_registry ! Suc 0) = ''KOAK''"
  "icaoCode (example_registry ! 2) = []" "icaoCode (example_registry ! 3) = ''KSJC''"
  "first_slot example_registry ''KSFO'' = Some 0" "first_slot example_registry ''KSJC'' = Some 3"
  "isEmpty (example_registry ! 2)"
  by (simp_all add: example_registry_def AirportLED_of_def safeCopy_def isEmpty_def)

theorem C3_parseWeatherData_merge_witness:
  "\<exists>status airports'.
     parseWeatherData example_batch example_registry = Some (status, airports')
     \<and> icaoId (metarData (airports' ! 0)) = ''KSFO'' \<and> hasValidData (airports' ! 0)
     \<and> airports' ! 1 = example_registry ! 1
     \<and> airports' ! 2 = example_registry ! 2
     \<and> icaoId (metarData (airports' ! 3)) = ''KSJC'' \<and> hasValidData (airports' ! 3)
     \<and> leds (updateFromAirports example_settings airports' example_strip) ! 2 = LED_OFF"
proof -
  obtain m1 where m1: "parse ''KSFO 081856Z 28015KT 10SM CLR 15/12 A3012'' = Some m1"
    using parse_total [of "''KSFO 081856Z 28015KT 10SM CLR 15/12 A3012''"]
    by (auto simp: no_trailing_space_def)
  obtain m2 where m2: "parse ''KSJC 081853Z 30008KT 10SM FEW020 16/11 A3011'' = Some m2"
    using parse_total [of "''KSJC 081853Z 30008KT 10SM FEW020 16/11 A3011''"]
    by (auto simp: no_trailing_space_def)
  have id1: "icaoId m1 = ''KSFO''"
    using parse_fields(1) [OF m1] by (simp add: example_ids)
  have id2: "icaoId m2 = ''KSJC''"
    using parse_fields(1) [OF m2] by (simp add: example_ids)
  have obs: "observations example_batch = [m1, m2]"
    by (simp add: observations_def example_batch_lines m1 m2 id1 id2)
  have strip: "length (leds example_strip) = numLeds example_strip"
    "length (baseColors example_strip) = numLeds example_strip" "2 < numLeds example_strip"
    by (simp_all add: example_strip_def)
  from C3_parseWeatherData_merge [of example_batch example_registry example_strip example_settings]
  obtain status airports' where
    r: "parseWeatherData example_batch example_registry = Some (status, airports')"
    and slot: "\<And>i. i < length example_registry \<Longrightarrow>
          (let c = icaoCode (example_registry ! i);
               ms = filter (\<lambda>m. icaoId m = c) (observations example_batch)
           in if ms \<noteq> [] \<and> first_slot example_registry c = Some i
              then airports' ! i = (example_registry ! i)\<lparr> metarData := last ms, hasValidData := True \<rparr>
              else airports' ! i = example_registry ! i)
          \<and> (isEmpty (example_registry ! i) \<longrightarrow>
                airports' ! i = example_registry ! i
                \<and> (length (leds example_strip) = numLeds example_strip
                     \<and> length (baseColors example_strip) = numLeds example_strip
                     \<and> i < numLeds example_strip
                    \<longrightarrow> leds (updateFromAirports example_settings airports' example_strip) ! i = LED_OFF
                      \<and> baseColors (updateFromAirports example_settings airports' example_strip) ! i
                          = LED_OFF))"
    by blast
  from slot [of 0] have s0: "icaoId (metarData (airports' ! 0)) = ''KSFO'' \<and> hasValidData (airports' ! 0)"
    by (simp add: Let_def obs example_registry_slots id1 id2)
  from slot [of 1] have s1: "airports' ! 1 = example_registry ! 1"
    by (simp add: Let_def obs example_registry_slots id1 id2)
  from slot [of 2] strip have s2: "airports' ! 2 = example_registry ! 2
      \<and> leds (updateFromAirports example_settings airports' example_strip) ! 2 = LED_OFF"
    by (simp add: Let_def obs example_registry_slots id1 id2)
  from slot [of 3] have s3: "icaoId (metarData (airports' ! 3)) = ''KSJC'' \<and> hasValidData (airports' ! 3)"
    by (simp add: Let_def obs example_registry_slots id1 id2)
  from r s0 s1 s2 s3 show ?thesis
    by blast
qed

text \<open>
  C10. \<open>fetchWeatherData\<close> always returns, and whenever its status is not SUCCESS
  (low memory, connection failure, timeout, response failure or parsing failure) every
  slot is exactly as before the call: a slot is written only together with an increment
  of the parsed count, and a non-zero count gives SUCCESS.
\<close>

theorem C10_failed_fetch_keeps_registry:
  "\<exists>status airports'.
     fetchWeatherData freeHeap net airports = Some (status, airports')
     \<and> (status \<noteq> SUCCESS \<longrightarrow> airports' = airports)"
proof (cases "freeHeap < MIN_HEAP_FOR_OPERATION")
  case True
  then show ?thesis
    by (simp add: fetchWeatherData_def)
next
  case False
  obtain st rawData where raw: "fetchRawData net = (st, rawData)"
    by (cases "fetchRawData net") auto
  show ?thesis
  proof (cases "st = SUCCESS")
    case ne: False
    with False raw show ?thesis
      by (simp add: fetchWeatherData_def)
  next
    case True
    obtain status airports' where r: "parseWeatherData rawData airports = Some (status, airports')"
      using parseWeatherData_total by blast
    from parseWeatherData_result(2) [OF r] r False raw True show ?thesis
      by (auto simp: fetchWeatherData_def)
  qed
qed


lemma example_response_body:
  "fetchRawData (Response example_response)
     = (SUCCESS, ''KSFO 081856Z 28015KT 10SM CLR 15/12 A3012'')"
  unfolding example_response_def by code_simp

theorem C10_failed_fetch_keeps_registry_witness:
  "fetchWeatherData 20000 (Response example_response) example_registry
     = Some (PARSING_FAILURE, example_registry)"
proof -
  from C10_failed_fetch_keeps_registry [of 20000 "Response example_response" example_registry]
  obtain status airports' where
    r: "fetchWeatherData 20000 (Response example_response) example_registry = Some (status, airports')"
    and keep: "status \<noteq> SUCCESS \<longrightarrow> airports' = example_registry"
    by blast
  have "parse_lines ''KSFO 081856Z 28015KT 10SM CLR 15/12 A3012'' example_registry 0
      = Some (example_registry, 0)"
    by (simp add: parse_lines.simps [of "''KSFO 081856Z 28015KT 10SM CLR 15/12 A3012''"])
  then have "map_option fst (fetchWeatherData 20000 (Response example_response) example_registry)
      = Some PARSING_FAILURE"
    by (simp add: fetchWeatherData_def MIN_HEAP_FOR_OPERATION_def example_response_body
        parseWeatherData_def)
  with r have "status = PARSING_FAILURE"
    by simp
  with r keep show ?thesis
    by simp
qed

end
